theory Spec2Isabelle
  imports Complex_Main "HOL-Library.Sublist"
begin

section \<open>Python values and exceptions\<close>

text \<open>
  The scraper (\<^verbatim>\<open>FreeGamesScraper.py\<close>) works on untyped Python values: the JSON
  documents returned by the stores and the offer dictionaries built from them.
  A value is \<^verbatim>\<open>None\<close>, a bool, an int, a str, a list or a dict with string keys
  (all that \<^verbatim>\<open>json.loads\<close> produces, JSON numbers being taken as integers: the price
  fields of the stores are integer amounts of cents). A dict is an association list,
  read with \<open>map_of\<close>. Strings are ASCII.
\<close>

datatype pyval =
    PyNone
  | PyBool bool
  | PyInt int
  | PyStr string
  | PyList "pyval list"
  | PyDict "(string \<times> pyval) list"

type_synonym pydict = "(string \<times> pyval) list"

text \<open>
  The exceptions that the modelled code can raise. All of them are subclasses of
  \<^verbatim>\<open>Exception\<close> but \<open>KeyboardInterrupt\<close>, which \<^verbatim>\<open>except Exception\<close> does not catch.
\<close>

datatype exn =
    KeyError
  | TypeError
  | AttributeError
  | IndexError
  | ZeroDivisionError
  | OverflowError
  | RequestException
  | JSONDecodeError
  | OSError
  | KeyboardInterrupt

definition is_Exception :: "exn \<Rightarrow> bool" where
  "is_Exception e = (e \<noteq> KeyboardInterrupt)"

section \<open>Strings: \<^verbatim>\<open>lower\<close>, \<^verbatim>\<open>strip\<close> and \<^verbatim>\<open>re.findall(r'\b\w+\b', s)\<close>\<close>

definition is_upper :: "char \<Rightarrow> bool" where
  "is_upper c = (65 \<le> (of_char c :: nat) \<and> (of_char c :: nat) \<le> 90)"

definition lower_char :: "char \<Rightarrow> char" where
  "lower_char c = (if is_upper c then char_of ((of_char c :: nat) + 32) else c)"

definition lower :: "string \<Rightarrow> string" where
  "lower s = map lower_char s"

text \<open>\<^verbatim>\<open>str.isspace\<close> on ASCII: codes 9 to 13, 28 to 31 and the blank.\<close>

definition is_space :: "char \<Rightarrow> bool" where
  "is_space c =
     (let n = (of_char c :: nat) in (9 \<le> n \<and> n \<le> 13) \<or> (28 \<le> n \<and> n \<le> 32))"

definition strip :: "string \<Rightarrow> string" where
  "strip s = rev (dropWhile is_space (rev (dropWhile is_space s)))"

text \<open>The class \<^verbatim>\<open>\w\<close> on ASCII: letters, digits and the underscore.\<close>

definition is_word_char :: "char \<Rightarrow> bool" where
  "is_word_char c =
     (let n = (of_char c :: nat) in
        (48 \<le> n \<and> n \<le> 57) \<or> (65 \<le> n \<and> n \<le> 90) \<or> n = 95 \<or> (97 \<le> n \<and> n \<le> 122))"

text \<open>
  \<^verbatim>\<open>re.findall(r'\b\w+\b', s)\<close>: a match starts at a word boundary, \<^verbatim>\<open>\w+\<close> is greedy and
  the boundary after it holds exactly at the end of the run, so the matches are the
  maximal runs of word characters, from left to right. \<open>cur\<close> is the run being read,
  reversed.
\<close>

fun findall_from :: "string \<Rightarrow> string \<Rightarrow> string list" where
  "findall_from cur [] = (if cur = [] then [] else [rev cur])"
| "findall_from cur (c # cs) =
     (if is_word_char c then findall_from (c # cur) cs
      else (if cur = [] then [] else [rev cur]) @ findall_from [] cs)"

definition findall_words :: "string \<Rightarrow> string list" where
  "findall_words s = findall_from [] s"

text \<open>\<^verbatim>\<open>set(re.findall(r'\b\w+\b', s))\<close>\<close>

definition tokens :: "string \<Rightarrow> string set" where
  "tokens s = set (findall_words s)"

section \<open>The deduplicator: \<^verbatim>\<open>_remove_duplicates\<close>\<close>

text \<open>
  \<^verbatim>\<open>len(title_words & seen_words) / max(len(title_words), len(seen_words))\<close>.
  Python divides two ints into a float and compares it with the float \<^verbatim>\<open>0.8\<close>; for
  sets of fewer than \<open>2 ^ 50\<close> words the rounded comparison agrees with the exact
  one, which is what the model computes (\<open>overlap_gt_iff\<close> below gives it in
  integers). The division by zero is a branch of \<open>seen_scan\<close>.
\<close>

definition overlap :: "string set \<Rightarrow> string set \<Rightarrow> real" where
  "overlap a b = real (card (a \<inter> b)) / real (max (card a) (card b))"

text \<open>
  The inner loop over \<^verbatim>\<open>seen_titles\<close>: \<open>Inr True\<close> is the \<^verbatim>\<open>break\<close> with
  \<^verbatim>\<open>is_duplicate = True\<close>. \<^verbatim>\<open>seen_titles\<close> is a Python set, held here as the list of its
  elements in the order in which they were added; \<open>seen_scan_order\<close> below shows that
  the outcome does not depend on the order in which Python iterates over the set.
\<close>

fun seen_scan :: "string set \<Rightarrow> string list \<Rightarrow> exn + bool" where
  "seen_scan title_words [] = Inr False"
| "seen_scan title_words (seen_title # rest) =
     (let seen_words = tokens seen_title in
      if max (card title_words) (card seen_words) = 0 then Inl ZeroDivisionError
      else if overlap title_words seen_words > 0.8 then Inr True
      else seen_scan title_words rest)"

text \<open>\<^verbatim>\<open>game['title'].lower().strip()\<close>\<close>

definition title_lower_of :: "pydict \<Rightarrow> exn + string" where
  "title_lower_of game =
     (case map_of game ''title'' of
        None \<Rightarrow> Inl KeyError
      | Some (PyStr t) \<Rightarrow> Inr (strip (lower t))
      | Some _ \<Rightarrow> Inl AttributeError)"

text \<open>\<^verbatim>\<open>seen_titles.add(title_lower)\<close>\<close>

definition set_add :: "string \<Rightarrow> string list \<Rightarrow> string list" where
  "set_add t seen = (if t \<in> set seen then seen else seen @ [t])"

fun dedup_loop :: "pydict list \<Rightarrow> string list \<Rightarrow> pydict list \<Rightarrow> exn + pydict list" where
  "dedup_loop [] seen_titles unique_games = Inr unique_games"
| "dedup_loop (game # games) seen_titles unique_games =
     (case title_lower_of game of
        Inl e \<Rightarrow> Inl e
      | Inr title_lower \<Rightarrow>
          (case seen_scan (tokens title_lower) seen_titles of
             Inl e \<Rightarrow> Inl e
           | Inr is_duplicate \<Rightarrow>
               if is_duplicate then dedup_loop games seen_titles unique_games
               else dedup_loop games (set_add title_lower seen_titles) (unique_games @ [game])))"

definition remove_duplicates :: "pydict list \<Rightarrow> exn + pydict list" where
  "remove_duplicates games = dedup_loop games [] []"

subsection \<open>The loop in terms of the accepted offers\<close>

text \<open>
  Two offers are classified as duplicates of each other when the token sets of their
  normalised titles overlap by more than 0.8; an offer is \<open>wordless\<close> when its
  normalised title has no token at all.
\<close>

definition similar :: "pydict \<Rightarrow> pydict \<Rightarrow> bool" where
  "similar h g =
     (case (title_lower_of h, title_lower_of g) of
        (Inr a, Inr b) \<Rightarrow> overlap (tokens b) (tokens a) > 0.8
      | _ \<Rightarrow> False)"

definition wordless :: "pydict \<Rightarrow> bool" where
  "wordless g = (case title_lower_of g of Inr t \<Rightarrow> tokens t = {} | Inl _ \<Rightarrow> False)"

text \<open>
  \<^verbatim>\<open>seen_titles\<close> always holds the normalised titles of \<^verbatim>\<open>unique_games\<close>
  (\<open>seen_inv\<close>), so the loop can be read on the accepted offers alone:
  \<open>dedupe_from\<close>, which \<open>remove_duplicates_dedupe_from\<close> proves equal to the loop
  of the source.
\<close>

definition seen_inv :: "string list \<Rightarrow> pydict list \<Rightarrow> bool" where
  "seen_inv seen accepted = (set seen = {t. \<exists>h \<in> set accepted. title_lower_of h = Inr t})"

fun dedupe_from :: "pydict list \<Rightarrow> pydict list \<Rightarrow> exn + pydict list" where
  "dedupe_from [] accepted = Inr accepted"
| "dedupe_from (g # gs) accepted =
     (case title_lower_of g of
        Inl e \<Rightarrow> Inl e
      | Inr t \<Rightarrow>
          if wordless g \<and> (\<exists>h \<in> set accepted. wordless h) then Inl ZeroDivisionError
          else if \<exists>h \<in> set accepted. similar h g then dedupe_from gs accepted
          else dedupe_from gs (accepted @ [g]))"

subsection \<open>The deduplicator as the specification states it\<close>

text \<open>
  Section 4.3 of the specification: keep a growing collection of seen normalised
  titles (lower-cased, trimmed); tokenise the title of each incoming offer; when the
  overlap with the tokens of some seen title exceeds 0.8, drop the offer; otherwise
  accept it and add its normalised title to the seen ones. The specification says
  nothing of an overlap whose denominator is zero; here it is the 0 of HOL's division,
  which does not exceed 0.8.
\<close>

definition normalized_title :: "pydict \<Rightarrow> string" where
  "normalized_title offer =
     (case map_of offer ''title'' of Some (PyStr t) \<Rightarrow> strip (lower t) | _ \<Rightarrow> [])"

fun Dedupe_from :: "string list \<Rightarrow> pydict list \<Rightarrow> pydict list" where
  "Dedupe_from seen [] = []"
| "Dedupe_from seen (offer # rest) =
     (if \<exists>s \<in> set seen. overlap (tokens (normalized_title offer)) (tokens s) > 0.8
      then Dedupe_from seen rest
      else offer # Dedupe_from (seen @ [normalized_title offer]) rest)"

definition Dedupe :: "pydict list \<Rightarrow> pydict list" where
  "Dedupe offers = Dedupe_from [] offers"

text \<open>The offers that the deduplicator is made for: each has a string as its title.\<close>

definition titled :: "pydict \<Rightarrow> bool" where
  "titled offer = (case map_of offer ''title'' of Some (PyStr t) \<Rightarrow> True | _ \<Rightarrow> False)"

section \<open>Python operations on values\<close>

text \<open>Sequencing of computations that may raise.\<close>

definition bind_exn :: "exn + 'a \<Rightarrow> ('a \<Rightarrow> exn + 'b) \<Rightarrow> exn + 'b" where
  "bind_exn m f = (case m of Inl e \<Rightarrow> Inl e | Inr x \<Rightarrow> f x)"

text \<open>Truth value of a value in an \<^verbatim>\<open>if\<close>.\<close>

fun truthy :: "pyval \<Rightarrow> bool" where
  "truthy PyNone = False"
| "truthy (PyBool b) = b"
| "truthy (PyInt n) = (n \<noteq> 0)"
| "truthy (PyStr s) = (s \<noteq> [])"
| "truthy (PyList xs) = (xs \<noteq> [])"
| "truthy (PyDict kvs) = (kvs \<noteq> [])"

text \<open>
  \<^verbatim>\<open>k in v\<close> for a string \<open>k\<close>: a key of a dict, an element of a list, a substring of
  a string; \<^verbatim>\<open>TypeError\<close> on the values that are not iterable.
\<close>

fun py_in :: "string \<Rightarrow> pyval \<Rightarrow> exn + bool" where
  "py_in k (PyDict kvs) = Inr (map_of kvs k \<noteq> None)"
| "py_in k (PyList xs) = Inr (PyStr k \<in> set xs)"
| "py_in k (PyStr s) = Inr (sublist k s)"
| "py_in k v = Inl TypeError"

text \<open>\<^verbatim>\<open>v[k]\<close> for a string \<open>k\<close>: lists and strings want integer indices.\<close>

fun py_getitem :: "pyval \<Rightarrow> string \<Rightarrow> exn + pyval" where
  "py_getitem (PyDict kvs) k = (case map_of kvs k of None \<Rightarrow> Inl KeyError | Some x \<Rightarrow> Inr x)"
| "py_getitem v k = Inl TypeError"

text \<open>\<^verbatim>\<open>v.get(k, d)\<close>: only a dict has the method.\<close>

fun py_get :: "pyval \<Rightarrow> string \<Rightarrow> pyval \<Rightarrow> exn + pyval" where
  "py_get (PyDict kvs) k d = Inr (case map_of kvs k of None \<Rightarrow> d | Some x \<Rightarrow> x)"
| "py_get v k d = Inl AttributeError"

text \<open>\<^verbatim>\<open>v[0]\<close>: a dict decoded from JSON has string keys only, so 0 is never a key.\<close>

fun py_first :: "pyval \<Rightarrow> exn + pyval" where
  "py_first (PyList []) = Inl IndexError"
| "py_first (PyList (x # xs)) = Inr x"
| "py_first (PyStr []) = Inl IndexError"
| "py_first (PyStr (c # cs)) = Inr (PyStr [c])"
| "py_first (PyDict kvs) = Inl KeyError"
| "py_first v = Inl TypeError"

text \<open>\<^verbatim>\<open>for x in v\<close>: the elements of a list, the keys of a dict, the characters of a string.\<close>

fun py_iter :: "pyval \<Rightarrow> exn + pyval list" where
  "py_iter (PyList xs) = Inr xs"
| "py_iter (PyDict kvs) = Inr (map (\<lambda>kv. PyStr (fst kv)) kvs)"
| "py_iter (PyStr s) = Inr (map (\<lambda>c. PyStr [c]) s)"
| "py_iter v = Inl TypeError"

text \<open>Numbers: an int, or a bool (\<^verbatim>\<open>True == 1\<close>, \<^verbatim>\<open>False == 0\<close>).\<close>

fun num_of :: "pyval \<Rightarrow> int option" where
  "num_of (PyInt n) = Some n"
| "num_of (PyBool b) = Some (if b then 1 else 0)"
| "num_of v = None"

text \<open>\<^verbatim>\<open>v == k\<close> for an integer literal \<open>k\<close> never raises; \<^verbatim>\<open>v > 0\<close> raises on a non-number.\<close>

definition py_eq_int :: "pyval \<Rightarrow> int \<Rightarrow> bool" where
  "py_eq_int v k = (num_of v = Some k)"

definition py_gt0 :: "pyval \<Rightarrow> exn + bool" where
  "py_gt0 v = (case num_of v of None \<Rightarrow> Inl TypeError | Some n \<Rightarrow> Inr (0 < n))"

subsection \<open>Formatting\<close>

definition digit_char :: "nat \<Rightarrow> char" where
  "digit_char d = char_of (48 + d)"

fun str_nat :: "nat \<Rightarrow> string" where
  "str_nat n = (if n < 10 then [digit_char n] else str_nat (n div 10) @ [digit_char (n mod 10)])"

declare str_nat.simps [simp del]

definition str_int :: "int \<Rightarrow> string" where
  "str_int n = (if n < 0 then ''-'' @ str_nat (nat (- n)) else str_nat (nat n))"

text \<open>
  \<^verbatim>\<open>f"${price / 100:.2f}"\<close> for an integer \<^verbatim>\<open>price\<close>. The quotient of two ints is
  the double nearest to the exact quotient, ties going to the even significand, and
  \<^verbatim>\<open>OverflowError\<close> when that is \<open>2 ^ 1024\<close> or more. A positive double is kept as its
  significand and exponent, \<open>(m, e)\<close> for \<open>m * 2 ^ e\<close> with \<open>2 ^ 52 \<le> m \<le> 2 ^ 53\<close>
  (a quotient by 100 of a positive int is at least 0.01, far from the subnormal
  numbers). The format \<^verbatim>\<open>.2f\<close> prints the decimal with two places nearest to the exact
  value of the double, ties going to the even digit.
\<close>

function bit_length :: "int \<Rightarrow> nat" where
  "bit_length n = (if n \<le> 0 then 0 else Suc (bit_length (n div 2)))"
  by auto

termination bit_length
  by (relation "measure nat") auto

declare bit_length.simps [simp del]

text \<open>The integer nearest to \<open>num / den\<close>, the even one of two that are equally near.\<close>

definition round_half_even :: "int \<Rightarrow> int \<Rightarrow> int" where
  "round_half_even num den =
     (let q = num div den; r = num mod den in
      if den < 2 * r \<or> (2 * r = den \<and> odd q) then q + 1 else q)"

type_synonym double = "int \<times> int"

text \<open>Numerator and denominator of \<open>cents / 100 / 2 ^ e\<close>.\<close>

definition scaled :: "int \<Rightarrow> int \<Rightarrow> int \<times> int" where
  "scaled cents e = (cents * 2 ^ nat (- e), 100 * 2 ^ nat e)"

text \<open>
  \<^verbatim>\<open>cents / 100\<close> for a positive int: with \<open>e0\<close> below, \<open>cents / 100 / 2 ^ e0\<close> lies between
  \<open>2 ^ 52\<close> and \<open>2 ^ 54\<close>, so the exponent is \<open>e0\<close> or \<open>e0 + 1\<close>.
\<close>

definition true_divide_100 :: "int \<Rightarrow> exn + double" where
  "true_divide_100 cents =
     (let e0 = int (bit_length cents) - 60;
          e = (if 2 ^ 53 \<le> fst (scaled cents e0) div snd (scaled cents e0) then e0 + 1 else e0);
          m = round_half_even (fst (scaled cents e)) (snd (scaled cents e))
      in if 0 \<le> e \<and> 2 ^ 1024 \<le> m * 2 ^ nat e then Inl OverflowError else Inr (m, e))"

definition format_2f :: "double \<Rightarrow> string" where
  "format_2f x =
     (let n = round_half_even (100 * fst x * 2 ^ nat (snd x)) (2 ^ nat (- snd x))
      in str_nat (nat (n div 100)) @ ''.'' @
         [digit_char (nat (n mod 100 div 10)), digit_char (nat (n mod 10))])"

text \<open>
  Both places that format a price test \<^verbatim>\<open>price > 0\<close> before; zero and the negative
  amounts are given as Python prints them.
\<close>

definition format_dollars :: "int \<Rightarrow> exn + string" where
  "format_dollars cents =
     (if cents = 0 then Inr ''$0.00''
      else case true_divide_100 \<bar>cents\<bar> of
             Inl e \<Rightarrow> Inl e
           | Inr x \<Rightarrow> Inr (''$'' @ (if cents < 0 then ''-'' else []) @ format_2f x))"

text \<open>
  \<^verbatim>\<open>str(v)\<close>, as an f-string applies it. The text of a list or dict is Python's
  \<^verbatim>\<open>repr\<close>, which is the interpreter's and is taken as the parameter \<open>R\<close>.
\<close>

fun py_str :: "(pyval \<Rightarrow> string) \<Rightarrow> pyval \<Rightarrow> string" where
  "py_str R PyNone = ''None''"
| "py_str R (PyBool b) = (if b then ''True'' else ''False'')"
| "py_str R (PyInt n) = str_int n"
| "py_str R (PyStr s) = s"
| "py_str R v = R v"

section \<open>Source adapters\<close>

text \<open>
  An adapter fetches one document and builds offers from it. What the network gives
  is its input here: \<open>Inl e\<close> when \<^verbatim>\<open>session.get\<close>, \<^verbatim>\<open>raise_for_status\<close> or
  \<^verbatim>\<open>response.json()\<close> raises \<open>e\<close>, \<open>Inr data\<close> with the decoded document otherwise.

  The body of the \<^verbatim>\<open>try\<close> appends to \<^verbatim>\<open>games\<close>, which lives outside of it, so a run of
  the body is the list built so far together with the exception that ended it, if
  any. The handler \<^verbatim>\<open>except Exception as e: logger.error(...)\<close> catches all but
  \<open>KeyboardInterrupt\<close>; after it the function returns \<^verbatim>\<open>games\<close>. The message given to
  \<^verbatim>\<open>logger.error\<close> is an effect, kept in \<open>error_logged\<close>; the value returned is
  \<open>returned\<close>.
\<close>

type_synonym run = "pydict list \<times> exn option"

record outcome =
  returned :: "pydict list"
  error_logged :: "exn option"

definition adapter_boundary :: "run \<Rightarrow> exn + outcome" where
  "adapter_boundary r =
     (case snd r of
        None \<Rightarrow> Inr \<lparr>returned = fst r, error_logged = None\<rparr>
      | Some e \<Rightarrow>
          if is_Exception e then Inr \<lparr>returned = fst r, error_logged = Some e\<rparr>
          else Inl e)"

subsection \<open>Epic Games: the helpers\<close>

text \<open>\<^verbatim>\<open>_get_epic_original_price\<close>: the body of its \<^verbatim>\<open>try\<close>, then the bare \<^verbatim>\<open>except\<close>.\<close>

definition epic_price_body :: "pyval \<Rightarrow> exn + string" where
  "epic_price_body game_data =
     bind_exn (py_in ''price'' game_data) (\<lambda>has_price.
     bind_exn (if has_price
               then bind_exn (py_getitem game_data ''price'') (\<lambda>p.
                    bind_exn (py_get p ''totalPrice'' PyNone) (\<lambda>tp. Inr (truthy tp)))
               else Inr False) (\<lambda>cond.
     if cond then
       bind_exn (py_getitem game_data ''price'') (\<lambda>p.
       bind_exn (py_getitem p ''totalPrice'') (\<lambda>tp.
       bind_exn (py_get tp ''originalPrice'' (PyInt 0)) (\<lambda>price.
       bind_exn (py_gt0 price) (\<lambda>positive.
       if positive then format_dollars (the (num_of price)) else Inr ''Free''))))
     else Inr ''Unknown''))"

definition get_epic_original_price :: "pyval \<Rightarrow> string" where
  "get_epic_original_price game_data =
     (case epic_price_body game_data of Inl e \<Rightarrow> ''Unknown'' | Inr s \<Rightarrow> s)"

text \<open>\<^verbatim>\<open>_get_epic_image_url\<close>\<close>

fun epic_image_loop :: "pyval list \<Rightarrow> exn + pyval" where
  "epic_image_loop [] = Inr (PyStr [])"
| "epic_image_loop (img # rest) =
     bind_exn (py_get img ''type'' PyNone) (\<lambda>ty.
     if ty = PyStr ''OfferImageWide'' then py_get img ''url'' (PyStr [])
     else epic_image_loop rest)"

definition get_epic_image_url :: "pyval \<Rightarrow> pyval" where
  "get_epic_image_url game_data =
     (case bind_exn (py_in ''keyImages'' game_data) (\<lambda>has.
             if has then
               bind_exn (py_getitem game_data ''keyImages'') (\<lambda>imgs.
               bind_exn (py_iter imgs) epic_image_loop)
             else Inr (PyStr []))
      of Inl e \<Rightarrow> PyStr [] | Inr v \<Rightarrow> v)"

text \<open>\<^verbatim>\<open>_get_epic_url\<close>\<close>

definition get_epic_url :: "(pyval \<Rightarrow> string) \<Rightarrow> pyval \<Rightarrow> string" where
  "get_epic_url R game_data =
     (case bind_exn (py_get game_data ''catalogNs'' (PyDict [])) (\<lambda>ns.
           bind_exn (py_get ns ''mappings'' (PyList [PyDict []])) (\<lambda>ms.
           bind_exn (py_first ms) (\<lambda>m.
           py_get m ''pageSlug'' (PyStr []))))
      of Inl e \<Rightarrow> ''https://store.epicgames.com''
       | Inr slug \<Rightarrow>
           if truthy slug then ''https://store.epicgames.com/en-US/p/'' @ py_str R slug
           else ''https://store.epicgames.com'')"

subsection \<open>Epic Games: \<^verbatim>\<open>scrape_epic_games\<close>\<close>

text \<open>The dict \<^verbatim>\<open>game_info\<close>, its values computed in the order of the source.\<close>

definition epic_game_info ::
  "(pyval \<Rightarrow> string) \<Rightarrow> pyval \<Rightarrow> pyval \<Rightarrow> string \<Rightarrow> exn + pydict" where
  "epic_game_info R game offer original_price =
     bind_exn (py_get game ''title'' (PyStr ''Unknown'')) (\<lambda>title.
     bind_exn (bind_exn (bind_exn (py_getitem offer ''promotionalOffers'') py_first)
                 (\<lambda>first. py_get first ''endDate'' PyNone)) (\<lambda>end_date.
     bind_exn (py_get game ''description'' (PyStr [])) (\<lambda>description.
     Inr [(''title'', title),
          (''platform'', PyStr ''Epic Games Store''),
          (''original_price'', PyStr original_price),
          (''current_price'', PyStr ''Free''),
          (''url'', PyStr (get_epic_url R game)),
          (''end_date'', end_date),
          (''description'', description),
          (''image_url'', get_epic_image_url game),
          (''type'', PyStr ''Current Free Game'')])))"

text \<open>\<^verbatim>\<open>for offer in promotions['promotionalOffers']\<close>\<close>

fun epic_offers_loop :: "(pyval \<Rightarrow> string) \<Rightarrow> pyval \<Rightarrow> pyval list \<Rightarrow> pydict list \<Rightarrow> run" where
  "epic_offers_loop R game [] games = (games, None)"
| "epic_offers_loop R game (offer # rest) games =
     (case py_get offer ''promotionalOffers'' PyNone of
        Inl e \<Rightarrow> (games, Some e)
      | Inr active \<Rightarrow>
          if truthy active then
            (let original_price = get_epic_original_price game in
             if original_price \<noteq> ''Free'' then
               (case epic_game_info R game offer original_price of
                  Inl e \<Rightarrow> (games, Some e)
                | Inr game_info \<Rightarrow> epic_offers_loop R game rest (games @ [game_info]))
             else epic_offers_loop R game rest games)
          else epic_offers_loop R game rest games)"

text \<open>\<^verbatim>\<open>for game in search_store['elements']\<close>\<close>

fun epic_elements_loop :: "(pyval \<Rightarrow> string) \<Rightarrow> pyval list \<Rightarrow> pydict list \<Rightarrow> run" where
  "epic_elements_loop R [] games = (games, None)"
| "epic_elements_loop R (game # rest) games =
     (case py_get game ''promotions'' PyNone of
        Inl e \<Rightarrow> (games, Some e)
      | Inr promotions \<Rightarrow>
          if truthy promotions then
            (case py_get promotions ''promotionalOffers'' PyNone of
               Inl e \<Rightarrow> (games, Some e)
             | Inr current \<Rightarrow>
                 if truthy current then
                   (case bind_exn (py_getitem promotions ''promotionalOffers'') py_iter of
                      Inl e \<Rightarrow> (games, Some e)
                    | Inr offers \<Rightarrow>
                        (case epic_offers_loop R game offers games of
                           (games', Some e) \<Rightarrow> (games', Some e)
                         | (games', None) \<Rightarrow> epic_elements_loop R rest games'))
                 else epic_elements_loop R rest games)
          else epic_elements_loop R rest games)"

text \<open>
  The elements that the loop runs over:
  \<^verbatim>\<open>'data' in data and 'Catalog' in data['data']\<close>, then
  \<^verbatim>\<open>data['data']['Catalog']['searchStore']['elements']\<close>; \<open>None\<close> when the test is false.
\<close>

definition epic_elements :: "pyval \<Rightarrow> exn + pyval list option" where
  "epic_elements data =
     bind_exn (py_in ''data'' data) (\<lambda>has_data.
     bind_exn (if has_data
               then bind_exn (py_getitem data ''data'') (py_in ''Catalog'')
               else Inr False) (\<lambda>cond.
     if cond then
       bind_exn (py_getitem data ''data'') (\<lambda>d.
       bind_exn (py_getitem d ''Catalog'') (\<lambda>c.
       bind_exn (py_getitem c ''searchStore'') (\<lambda>search_store.
       bind_exn (py_getitem search_store ''elements'') (\<lambda>els.
       bind_exn (py_iter els) (\<lambda>xs. Inr (Some xs))))))
     else Inr None))"

definition epic_body :: "(pyval \<Rightarrow> string) \<Rightarrow> exn + pyval \<Rightarrow> run" where
  "epic_body R response =
     (case bind_exn response epic_elements of
        Inl e \<Rightarrow> ([], Some e)
      | Inr None \<Rightarrow> ([], None)
      | Inr (Some elements) \<Rightarrow> epic_elements_loop R elements [])"

definition scrape_epic_games :: "(pyval \<Rightarrow> string) \<Rightarrow> exn + pyval \<Rightarrow> exn + outcome" where
  "scrape_epic_games R response = adapter_boundary (epic_body R response)"

subsection \<open>Steam: \<^verbatim>\<open>scrape_steam_weekend_deals\<close>\<close>

text \<open>
  The test of the source, with \<^verbatim>\<open>and\<close> evaluated from left to right:
  \<^verbatim>\<open>item.get('final_price') == 0 and item.get('original_price', 0) > 0 and
  item.get('discount_percent') == 100\<close>.
\<close>

definition steam_test :: "pyval \<Rightarrow> exn + bool" where
  "steam_test item =
     bind_exn (py_get item ''final_price'' PyNone) (\<lambda>final_price.
     if py_eq_int final_price 0 then
       bind_exn (py_get item ''original_price'' (PyInt 0)) (\<lambda>original_price.
       bind_exn (py_gt0 original_price) (\<lambda>positive.
       if positive then
         bind_exn (py_get item ''discount_percent'' PyNone) (\<lambda>discount_percent.
         Inr (py_eq_int discount_percent 100))
       else Inr False))
     else Inr False)"

definition steam_game_info :: "(pyval \<Rightarrow> string) \<Rightarrow> pyval \<Rightarrow> exn + pydict" where
  "steam_game_info R item =
     bind_exn (py_get item ''name'' (PyStr ''Unknown'')) (\<lambda>name.
     bind_exn (py_get item ''original_price'' (PyInt 0)) (\<lambda>original_price.
     bind_exn (case num_of original_price of
                 None \<Rightarrow> Inl TypeError
               | Some cents \<Rightarrow> format_dollars cents) (\<lambda>price_text.
     bind_exn (py_get item ''id'' (PyStr [])) (\<lambda>ident.
     bind_exn (py_get item ''discount_percent'' (PyInt 0)) (\<lambda>discount_percent.
     bind_exn (py_get item ''large_capsule_image'' (PyStr [])) (\<lambda>capsule.
     Inr [(''title'', name),
          (''platform'', PyStr ''Steam''),
          (''original_price'', PyStr price_text),
          (''current_price'', PyStr ''Free''),
          (''url'', PyStr (''https://store.steampowered.com/app/'' @ py_str R ident)),
          (''discount_percent'', discount_percent),
          (''image_url'', capsule),
          (''description'', PyStr ''Steam temporary free promotion''),
          (''type'', PyStr ''Steam Weekend Deal'')]))))))"

text \<open>\<^verbatim>\<open>for item in data['specials']['items']\<close>\<close>

fun steam_items_loop :: "(pyval \<Rightarrow> string) \<Rightarrow> pyval list \<Rightarrow> pydict list \<Rightarrow> run" where
  "steam_items_loop R [] games = (games, None)"
| "steam_items_loop R (item # rest) games =
     (case steam_test item of
        Inl e \<Rightarrow> (games, Some e)
      | Inr keep \<Rightarrow>
          if keep then
            (case steam_game_info R item of
               Inl e \<Rightarrow> (games, Some e)
             | Inr game_info \<Rightarrow> steam_items_loop R rest (games @ [game_info]))
          else steam_items_loop R rest games)"

definition steam_items :: "pyval \<Rightarrow> exn + pyval list option" where
  "steam_items data =
     bind_exn (py_in ''specials'' data) (\<lambda>has_specials.
     bind_exn (if has_specials
               then bind_exn (py_getitem data ''specials'') (py_in ''items'')
               else Inr False) (\<lambda>cond.
     if cond then
       bind_exn (py_getitem data ''specials'') (\<lambda>specials.
       bind_exn (py_getitem specials ''items'') (\<lambda>items.
       bind_exn (py_iter items) (\<lambda>xs. Inr (Some xs))))
     else Inr None))"

definition steam_body :: "(pyval \<Rightarrow> string) \<Rightarrow> exn + pyval \<Rightarrow> run" where
  "steam_body R response =
     (case bind_exn response steam_items of
        Inl e \<Rightarrow> ([], Some e)
      | Inr None \<Rightarrow> ([], None)
      | Inr (Some items) \<Rightarrow> steam_items_loop R items [])"

definition scrape_steam_weekend_deals :: "(pyval \<Rightarrow> string) \<Rightarrow> exn + pyval \<Rightarrow> exn + outcome" where
  "scrape_steam_weekend_deals R response = adapter_boundary (steam_body R response)"

subsection \<open>Microsoft Store and the HTML adapters\<close>

text \<open>
  \<^verbatim>\<open>scrape_microsoft_store\<close> fetches the page and parses it, and appends nothing to
  \<^verbatim>\<open>games\<close>. Its input is what fetching and parsing gives: the exception raised, or
  the parsed page, which the function does not read.
\<close>

definition scrape_microsoft_store :: "exn + 'page \<Rightarrow> exn + outcome" where
  "scrape_microsoft_store response =
     adapter_boundary ([], case response of Inl e \<Rightarrow> Some e | Inr page \<Rightarrow> None)"

text \<open>
  \<^verbatim>\<open>scrape_gog_giveaways\<close>, \<^verbatim>\<open>scrape_itchio_sales\<close>, \<^verbatim>\<open>scrape_ubisoft_connect\<close> and
  \<^verbatim>\<open>scrape_amazon_prime_gaming\<close> read their offers off a page with BeautifulSoup, a
  library that is not modelled: for them a run of the \<^verbatim>\<open>try\<close> body is the input, and
  the model is the boundary around it, which is the same in the four functions.
\<close>

definition scrape_html_page :: "run \<Rightarrow> exn + outcome" where
  "scrape_html_page body_run = adapter_boundary body_run"

section \<open>The orchestrator: \<^verbatim>\<open>scrape_all_platforms_threaded\<close>\<close>

text \<open>
  The scrapers run in a pool of three threads; the main thread takes the futures as
  they complete and is the only one that touches \<^verbatim>\<open>all_games\<close>. The input of the
  model is the list of the futures in the order of their completion, each with the
  name of its scraper and the outcome of \<^verbatim>\<open>future.result()\<close>: the list returned, or the
  exception raised in the worker. The order is the scheduler's; the theorems hold for
  every order.
\<close>

type_synonym completed = "(string \<times> (exn + pydict list)) list"

fun collect_results :: "completed \<Rightarrow> pydict list \<Rightarrow> exn + pydict list" where
  "collect_results [] all_games = Inr all_games"
| "collect_results ((scraper_name, result) # rest) all_games =
     (case result of
        Inr games \<Rightarrow> collect_results rest (all_games @ games)
      | Inl e \<Rightarrow> if is_Exception e then collect_results rest all_games else Inl e)"

definition scrape_all_platforms_threaded :: "completed \<Rightarrow> exn + pydict list" where
  "scrape_all_platforms_threaded cs = bind_exn (collect_results cs []) remove_duplicates"

text \<open>
  \<^verbatim>\<open>executor.submit(scraper)\<close> runs an adapter in a worker, and \<^verbatim>\<open>future.result()\<close>
  gives the list that the adapter returned, or raises what it raised. What the adapter
  logged stays in the log.
\<close>

definition future_result :: "exn + outcome \<Rightarrow> exn + pydict list" where
  "future_result r = (case r of Inl e \<Rightarrow> Inl e | Inr out \<Rightarrow> Inr (returned out))"

text \<open>The offers that a completed future hands over: those of its list, none when it raised.\<close>

definition offers_of :: "string \<times> (exn + pydict list) \<Rightarrow> pydict list" where
  "offers_of c = (case snd c of Inr games \<Rightarrow> games | Inl e \<Rightarrow> [])"

section \<open>Sinks and the entry point\<close>

text \<open>
  The files are kept by name. A JSON file holds the object given to \<^verbatim>\<open>json.dump\<close>, a
  CSV file the header and the rows given to the \<^verbatim>\<open>csv.DictWriter\<close>, cell by cell in the
  order of the header; a file opened for writing and closed without a write is empty.
  The encoding of both as text is the libraries'.
\<close>

datatype file_content =
    Json_file pyval
  | Csv_file "string list" "pyval list list"
  | Empty_file

datatype msg =
    Starting
  | No_free_games_found
  | Summary "(pyval \<times> pydict list) list"
  | Completed nat
  | All_currently_free nat
  | None_currently_free
  | Interrupted
  | Error_occurred exn

text \<open>
  The state that the sinks and \<^verbatim>\<open>main\<close> act on: the files, the number of calls of
  \<^verbatim>\<open>datetime.now()\<close> made so far, what was printed, and the errors given to
  \<^verbatim>\<open>logger.error\<close>. The environment gives the time of each call of \<^verbatim>\<open>datetime.now()\<close>
  and says which files can be opened for writing.
\<close>

record world =
  files :: "string \<Rightarrow> file_content option"
  clock :: nat
  printed :: "msg list"
  errors :: "exn list"

record env =
  now :: "nat \<Rightarrow> string"
  can_open :: "string \<Rightarrow> bool"

text \<open>\<^verbatim>\<open>game.get(field, default)\<close> on an offer.\<close>

definition offer_get :: "pydict \<Rightarrow> string \<Rightarrow> pyval \<Rightarrow> pyval" where
  "offer_get game field d = (case map_of game field of None \<Rightarrow> d | Some v \<Rightarrow> v)"

text \<open>Lists and dicts cannot be members of a set or keys of a dict.\<close>

fun hashable :: "pyval \<Rightarrow> bool" where
  "hashable (PyList xs) = False"
| "hashable (PyDict kvs) = False"
| "hashable v = True"

definition platform_of :: "pydict \<Rightarrow> pyval" where
  "platform_of game = offer_get game ''platform'' (PyStr ''Unknown'')"

subsection \<open>\<^verbatim>\<open>save_to_csv\<close>\<close>

definition fieldnames :: "string list" where
  "fieldnames = [''title'', ''platform'', ''original_price'', ''current_price'', ''url'',
                 ''end_date'', ''description'', ''type'', ''scraped_at'']"

text \<open>
  \<^verbatim>\<open>row = {field: game.get(field, '') for field in fieldnames}\<close> and then
  \<^verbatim>\<open>row['scraped_at'] = datetime.now().isoformat()\<close>, as the cells in header order.
\<close>

definition csv_row :: "env \<Rightarrow> pydict \<Rightarrow> nat \<Rightarrow> pyval list" where
  "csv_row ev game k =
     map (\<lambda>field. if field = ''scraped_at'' then PyStr (now ev k)
                   else offer_get game field (PyStr []))
         fieldnames"

fun csv_rows :: "env \<Rightarrow> pydict list \<Rightarrow> nat \<Rightarrow> pyval list list" where
  "csv_rows ev [] k = []"
| "csv_rows ev (game # rest) k = csv_row ev game k # csv_rows ev rest (Suc k)"

definition save_to_csv :: "env \<Rightarrow> pydict list \<Rightarrow> string \<Rightarrow> world \<Rightarrow> world" where
  "save_to_csv ev free_games filename w =
     (if free_games = [] then w
      else if \<not> can_open ev filename then w\<lparr>errors := errors w @ [OSError]\<rparr>
      else w\<lparr>files := (files w)(filename \<mapsto> Csv_file fieldnames (csv_rows ev free_games (clock w))),
             clock := clock w + length free_games\<rparr>)"

subsection \<open>\<^verbatim>\<open>save_to_json\<close>\<close>

text \<open>
  The object is built after the file is opened: the time is read first, and
  \<^verbatim>\<open>set(...)\<close> raises \<^verbatim>\<open>TypeError\<close> on a platform that is not hashable, which leaves the
  file empty. \<^verbatim>\<open>list(set(...))\<close> has the platforms once each, in an order that Python
  does not fix; the model lists each where its last offer stands.
\<close>

definition json_document :: "env \<Rightarrow> pydict list \<Rightarrow> nat \<Rightarrow> pyval" where
  "json_document ev free_games k =
     PyDict [(''scraped_at'', PyStr (now ev k)),
             (''total_games'', PyInt (int (length free_games))),
             (''platforms'', PyList (remdups (map platform_of free_games))),
             (''games'', PyList (map PyDict free_games))]"

definition save_to_json :: "env \<Rightarrow> pydict list \<Rightarrow> string \<Rightarrow> world \<Rightarrow> world" where
  "save_to_json ev free_games filename w =
     (if \<not> can_open ev filename then w\<lparr>errors := errors w @ [OSError]\<rparr>
      else if \<exists>game \<in> set free_games. \<not> hashable (platform_of game)
      then w\<lparr>files := (files w)(filename \<mapsto> Empty_file), clock := Suc (clock w),
             errors := errors w @ [TypeError]\<rparr>
      else w\<lparr>files := (files w)(filename \<mapsto> Json_file (json_document ev free_games (clock w))),
             clock := Suc (clock w)\<rparr>)"

subsection \<open>\<^verbatim>\<open>print_summary\<close>\<close>

text \<open>
  The offers are grouped by platform in a dict of lists (a platform that is not
  hashable raises \<^verbatim>\<open>TypeError\<close>); then the first five titles of each group are printed
  (\<^verbatim>\<open>game['title']\<close> raises \<^verbatim>\<open>KeyError\<close> on an offer without a title). The lines
  printed before an exception are not kept.
\<close>

fun group_add :: "pyval \<Rightarrow> pydict \<Rightarrow> (pyval \<times> pydict list) list \<Rightarrow> (pyval \<times> pydict list) list" where
  "group_add p game [] = [(p, [game])]"
| "group_add p game ((q, games) # rest) =
     (if p = q then (q, games @ [game]) # rest else (q, games) # group_add p game rest)"

fun group_by_platform ::
  "pydict list \<Rightarrow> (pyval \<times> pydict list) list \<Rightarrow> exn + (pyval \<times> pydict list) list" where
  "group_by_platform [] platforms = Inr platforms"
| "group_by_platform (game # rest) platforms =
     (if hashable (platform_of game)
      then group_by_platform rest (group_add (platform_of game) game platforms)
      else Inl TypeError)"

definition print_summary :: "pydict list \<Rightarrow> exn + msg list" where
  "print_summary free_games =
     (if free_games = [] then Inr [No_free_games_found]
      else bind_exn (group_by_platform free_games []) (\<lambda>platforms.
           if \<exists>group \<in> set platforms. \<exists>game \<in> set (take 5 (snd group)). map_of game ''title'' = None
           then Inl KeyError
           else Inr [Summary platforms]))"

subsection \<open>\<^verbatim>\<open>main\<close>\<close>

text \<open>
  The handlers of \<^verbatim>\<open>main\<close>: \<^verbatim>\<open>except KeyboardInterrupt\<close> prints that the run was
  interrupted, \<^verbatim>\<open>except Exception as e\<close> logs and prints the error. Both end the run
  without the sinks having been called.
\<close>

definition main_handler :: "exn \<Rightarrow> world \<Rightarrow> world" where
  "main_handler e w =
     (if e = KeyboardInterrupt then w\<lparr>printed := printed w @ [Interrupted]\<rparr>
      else w\<lparr>printed := printed w @ [Error_occurred e], errors := errors w @ [e]\<rparr>)"

definition say :: "msg list \<Rightarrow> world \<Rightarrow> world" where
  "say ms w = w\<lparr>printed := printed w @ ms\<rparr>"

definition main :: "env \<Rightarrow> completed \<Rightarrow> world \<Rightarrow> world" where
  "main ev cs w =
     (let w1 = say [Starting] w in
      case scrape_all_platforms_threaded cs of
        Inl e \<Rightarrow> main_handler e w1
      | Inr games \<Rightarrow>
          (case print_summary games of
             Inl e \<Rightarrow> main_handler e w1
           | Inr summary \<Rightarrow>
               (let w2 = say summary w1;
                    w3 = save_to_json ev games ''free_games.json'' w2;
                    w4 = save_to_csv ev games ''free_games.csv'' w3
                in say [Completed (length games),
                        if games \<noteq> [] then All_currently_free (length games)
                        else None_currently_free] w4)))"

subsection \<open>The Steam filter as the specification states it\<close>

text \<open>
  \<^verbatim>\<open>final_price == 0 AND original_price > 0 AND discount_percent == 100\<close> on the fields
  of an item, a missing \<^verbatim>\<open>original_price\<close> counting as 0.
\<close>

definition steam_condition :: "pyval \<Rightarrow> bool" where
  "steam_condition item =
     (case item of
        PyDict kvs \<Rightarrow>
          num_of (offer_get kvs ''final_price'' PyNone) = Some 0 \<and>
          (case num_of (offer_get kvs ''original_price'' (PyInt 0)) of
             Some n \<Rightarrow> 0 < n
           | None \<Rightarrow> False) \<and>
          num_of (offer_get kvs ''discount_percent'' PyNone) = Some 100
      | _ \<Rightarrow> False)"

text \<open>
  The error that reading an item raises, if any: \<^verbatim>\<open>AttributeError\<close> for an item
  that is not an object (it has no \<^verbatim>\<open>get\<close>); \<^verbatim>\<open>TypeError\<close> for an item with the
  final price 0 whose \<^verbatim>\<open>original_price\<close> is not a number (it cannot be compared with
  0); \<^verbatim>\<open>OverflowError\<close> for an item that satisfies the condition with an original
  price too large for a float.
\<close>

definition steam_error :: "pyval \<Rightarrow> exn option" where
  "steam_error item =
     (case item of
        PyDict kvs \<Rightarrow>
          if num_of (offer_get kvs ''final_price'' PyNone) = Some 0 then
            (case num_of (offer_get kvs ''original_price'' (PyInt 0)) of
               None \<Rightarrow> Some TypeError
             | Some n \<Rightarrow>
                 if 0 < n \<and> num_of (offer_get kvs ''discount_percent'' PyNone) = Some 100
                 then (case format_dollars n of Inl e \<Rightarrow> Some e | Inr s \<Rightarrow> None)
                 else None)
          else None
      | _ \<Rightarrow> Some AttributeError)"

text \<open>
  The items that the loop reaches without an error: those before the first item
  that raises one. The error of that item is the one logged.
\<close>

definition steam_reached :: "pyval list \<Rightarrow> pyval list" where
  "steam_reached items = takeWhile (\<lambda>item. steam_error item = None) items"

definition steam_first_error :: "pyval list \<Rightarrow> exn option" where
  "steam_first_error items =
     (case dropWhile (\<lambda>item. steam_error item = None) items of
        [] \<Rightarrow> None
      | item # rest \<Rightarrow> steam_error item)"

subsection \<open>The Epic filter as the specification states it\<close>

text \<open>
  The promotional offer entries of a catalog element (the entries of
  \<^verbatim>\<open>promotions.promotionalOffers\<close>, none when the element has no such list), and the
  active ones among them: those whose own \<^verbatim>\<open>promotionalOffers\<close> is not empty.
\<close>

definition promotional_entries :: "pyval \<Rightarrow> pyval list" where
  "promotional_entries game =
     (case py_get game ''promotions'' PyNone of
        Inl e \<Rightarrow> []
      | Inr promotions \<Rightarrow>
          if truthy promotions then
            (case bind_exn (py_get promotions ''promotionalOffers'' PyNone) py_iter of
               Inl e \<Rightarrow> []
             | Inr offers \<Rightarrow> offers)
          else [])"

definition is_active :: "pyval \<Rightarrow> bool" where
  "is_active offer =
     (case py_get offer ''promotionalOffers'' PyNone of
        Inl e \<Rightarrow> False
      | Inr active \<Rightarrow> truthy active)"

definition has_active_offer :: "pyval \<Rightarrow> pyval \<Rightarrow> bool" where
  "has_active_offer game offer = (offer \<in> set (promotional_entries game) \<and> is_active offer)"

text \<open>
  The original price of a catalog element, in cents: the integer at
  \<^verbatim>\<open>price.totalPrice.originalPrice\<close>, when the element has one there.
\<close>

definition original_price_cents :: "pyval \<Rightarrow> int option" where
  "original_price_cents game =
     (case game of
        PyDict kvs \<Rightarrow>
          (case map_of kvs ''price'' of
             Some (PyDict p) \<Rightarrow>
               (case map_of p ''totalPrice'' of
                  Some (PyDict tp) \<Rightarrow>
                    (case map_of tp ''originalPrice'' of Some (PyInt n) \<Rightarrow> Some n | _ \<Rightarrow> None)
                | _ \<Rightarrow> None)
           | _ \<Rightarrow> None)
      | _ \<Rightarrow> None)"

subsection \<open>Exceptions of the code itself\<close>

text \<open>
  A computation is \<open>safe\<close> when whatever it raises is an \<^verbatim>\<open>Exception\<close>; the lookups
  and loops of the adapters are, since they raise \<^verbatim>\<open>KeyError\<close>, \<^verbatim>\<open>TypeError\<close>,
  \<^verbatim>\<open>AttributeError\<close>, \<^verbatim>\<open>IndexError\<close> or \<^verbatim>\<open>OverflowError\<close> only.
\<close>

definition safe :: "exn + 'a \<Rightarrow> bool" where
  "safe m = (case m of Inl e \<Rightarrow> is_Exception e | Inr x \<Rightarrow> True)"

definition safe_run :: "run \<Rightarrow> bool" where
  "safe_run r = (case snd r of None \<Rightarrow> True | Some e \<Rightarrow> is_Exception e)"

section \<open>Example documents\<close>

text \<open>
  An answer of the Epic endpoint with the given catalog elements, the promotions of
  an element that is free now, and the price object of an element.
\<close>

definition epic_document :: "pyval list \<Rightarrow> pyval" where
  "epic_document elements =
     PyDict [(''data'', PyDict [(''Catalog'', PyDict [(''searchStore'',
       PyDict [(''elements'', PyList elements)])])])]"

definition active_promotions :: pyval where
  "active_promotions =
     PyDict [(''promotionalOffers'',
       PyList [PyDict [(''promotionalOffers'',
         PyList [PyDict [(''endDate'', PyStr ''2030-01-08T16:00:00.000Z'')]])]])]"

text \<open>The promotional offer entry of \<open>active_promotions\<close>.\<close>

definition active_entry :: pyval where
  "active_entry =
     PyDict [(''promotionalOffers'',
       PyList [PyDict [(''endDate'', PyStr ''2030-01-08T16:00:00.000Z'')]])]"

definition priced :: "int \<Rightarrow> pyval" where
  "priced cents =
     PyDict [(''totalPrice'', PyDict [(''discountPrice'', PyInt 0), (''originalPrice'', PyInt cents)])]"

definition epic_element :: "string \<Rightarrow> int \<Rightarrow> pyval" where
  "epic_element title cents =
     PyDict [(''title'', PyStr title), (''promotions'', active_promotions), (''price'', priced cents)]"

definition epic_element_without_price :: "string \<Rightarrow> pyval" where
  "epic_element_without_price title =
     PyDict [(''title'', PyStr title), (''promotions'', active_promotions)]"

text \<open>The offer that \<^verbatim>\<open>scrape_epic_games\<close> builds for such elements.\<close>

definition epic_offer :: "string \<Rightarrow> string \<Rightarrow> pydict" where
  "epic_offer title original_price =
     [(''title'', PyStr title),
      (''platform'', PyStr ''Epic Games Store''),
      (''original_price'', PyStr original_price),
      (''current_price'', PyStr ''Free''),
      (''url'', PyStr ''https://store.epicgames.com''),
      (''end_date'', PyStr ''2030-01-08T16:00:00.000Z''),
      (''description'', PyStr []),
      (''image_url'', PyStr []),
      (''type'', PyStr ''Current Free Game'')]"

text \<open>An answer of the Steam endpoint with the given specials, and an item of it.\<close>

definition steam_document :: "pyval list \<Rightarrow> pyval" where
  "steam_document items = PyDict [(''specials'', PyDict [(''items'', PyList items)])]"

definition steam_special :: "string \<Rightarrow> int \<Rightarrow> int \<Rightarrow> int \<Rightarrow> pyval" where
  "steam_special name final_price original_price discount_percent =
     PyDict [(''id'', PyInt 440), (''name'', PyStr name), (''final_price'', PyInt final_price),
             (''original_price'', PyInt original_price),
             (''discount_percent'', PyInt discount_percent)]"

text \<open>The text of a list or dict is not needed in the examples.\<close>

definition no_repr :: "pyval \<Rightarrow> string" where
  "no_repr v = []"

text \<open>
  An environment in which every file can be written and the clock gives the number
  of the call, and a world with no file.
\<close>

definition example_env :: env where
  "example_env = \<lparr>now = (\<lambda>k. ''2030-01-01T12:00:0'' @ str_nat k), can_open = (\<lambda>name. True)\<rparr>"

definition empty_world :: world where
  "empty_world = \<lparr>files = (\<lambda>name. None), clock = 0, printed = [], errors = []\<rparr>"

text \<open>The seven scrapers, each completing with an empty list.\<close>

definition all_empty :: completed where
  "all_empty =
     [(''scrape_microsoft_store'', Inr []), (''scrape_epic_games'', Inr []),
      (''scrape_steam_weekend_deals'', Inr []), (''scrape_gog_giveaways'', Inr []),
      (''scrape_itchio_sales'', Inr []), (''scrape_ubisoft_connect'', Inr []),
      (''scrape_amazon_prime_gaming'', Inr [])]"

section \<open>Properties of the deduplicator\<close>

lemma finite_tokens [simp]: "finite (tokens s)"
  by (simp add: tokens_def)

lemma overlap_empty [simp]: "overlap {} b = 0"
  by (simp add: overlap_def)

lemma overlap_gt_iff:
  assumes "0 < max (card a) (card b)"
  shows "(overlap a b > 0.8) = (4 * max (card a) (card b) < 5 * card (a \<inter> b))"
proof -
  let ?m = "max (card a) (card b)" and ?k = "card (a \<inter> b)"
  have "(overlap a b > 0.8) = (real ?k / real ?m > 4 / 5)"
    by (simp add: overlap_def)
  also have "\<dots> = (4 * real ?m < 5 * real ?k)"
    using assms by (simp add: field_simps)
  also have "\<dots> = (real (4 * ?m) < real (5 * ?k))"
    by simp
  also have "\<dots> = (4 * ?m < 5 * ?k)"
    by (rule of_nat_less_iff)
  finally show ?thesis .
qed

lemma max_card_0:
  "finite a \<Longrightarrow> finite b \<Longrightarrow> (max (card a) (card b) = 0) = (a = {} \<and> b = {})"
  by (auto simp: max_def)

text \<open>The inner loop in closed form: what it returns depends on the seen set only.\<close>

lemma seen_scan_closed:
  "finite tw \<Longrightarrow>
   seen_scan tw seen =
     (if tw = {} \<and> (\<exists>s \<in> set seen. tokens s = {}) then Inl ZeroDivisionError
      else Inr (\<exists>s \<in> set seen. overlap tw (tokens s) > 0.8))"
proof (induction seen)
  case Nil
  then show ?case by simp
next
  case (Cons a seen)
  have m: "(max (card tw) (card (tokens a)) = 0) = (tw = {} \<and> tokens a = {})"
    using Cons.prems by (simp add: max_card_0)
  show ?case
  proof (cases "tw = {}")
    case True
    then show ?thesis using Cons m by (auto simp: Let_def)
  next
    case False
    then show ?thesis using Cons m by (auto simp: Let_def)
  qed
qed

lemma seen_scan_order:
  "finite tw \<Longrightarrow> set seen = set seen' \<Longrightarrow> seen_scan tw seen = seen_scan tw seen'"
  by (simp add: seen_scan_closed)

lemma wordless_iff: "wordless h = (\<exists>s. title_lower_of h = Inr s \<and> tokens s = {})"
  by (cases "title_lower_of h") (simp_all add: wordless_def)

lemma similar_iff:
  "title_lower_of g = Inr t \<Longrightarrow>
   similar h g = (\<exists>s. title_lower_of h = Inr s \<and> overlap (tokens t) (tokens s) > 0.8)"
  by (cases "title_lower_of h") (simp_all add: similar_def)

lemma seen_scan_accepted:
  assumes "seen_inv seen accepted" "title_lower_of g = Inr t"
  shows "seen_scan (tokens t) seen =
     (if wordless g \<and> (\<exists>h \<in> set accepted. wordless h) then Inl ZeroDivisionError
      else Inr (\<exists>h \<in> set accepted. similar h g))"
proof -
  have s: "set seen = {t. \<exists>h \<in> set accepted. title_lower_of h = Inr t}"
    using assms(1) by (simp add: seen_inv_def)
  have a: "(\<exists>s \<in> set seen. tokens s = {}) = (\<exists>h \<in> set accepted. wordless h)"
    unfolding s wordless_iff by blast
  have b: "(\<exists>s \<in> set seen. overlap (tokens t) (tokens s) > 0.8) =
      (\<exists>h \<in> set accepted. similar h g)"
    unfolding s similar_iff[OF assms(2)] by blast
  have c: "wordless g = (tokens t = {})"
    using assms(2) by (simp add: wordless_def)
  show ?thesis
    by (simp only: seen_scan_closed[OF finite_tokens] a b c)
qed

lemma seen_inv_add:
  "seen_inv seen accepted \<Longrightarrow> title_lower_of g = Inr t \<Longrightarrow>
   seen_inv (set_add t seen) (accepted @ [g])"
  by (auto simp: seen_inv_def set_add_def)

lemma dedup_loop_dedupe_from:
  "seen_inv seen accepted \<Longrightarrow> dedup_loop games seen accepted = dedupe_from games accepted"
proof (induction games arbitrary: seen accepted)
  case Nil
  then show ?case by simp
next
  case (Cons g games)
  show ?case
  proof (cases "title_lower_of g")
    case (Inl e)
    then show ?thesis by simp
  next
    case (Inr t)
    note sc = seen_scan_accepted[OF Cons.prems Inr]
    have ia: "seen_inv (set_add t seen) (accepted @ [g])"
      by (rule seen_inv_add[OF Cons.prems Inr])
    have step: "dedup_loop (g # games) seen accepted =
        (case seen_scan (tokens t) seen of
           Inl e \<Rightarrow> Inl e
         | Inr d \<Rightarrow> if d then dedup_loop games seen accepted
                    else dedup_loop games (set_add t seen) (accepted @ [g]))"
      by (simp add: Inr)
    show ?thesis
    proof (cases "wordless g \<and> (\<exists>h \<in> set accepted. wordless h)")
      case True
      then show ?thesis unfolding step sc by (simp add: Inr)
    next
      case False
      then show ?thesis
        unfolding step sc
        using Cons.IH[OF Cons.prems] Cons.IH[OF ia] by (auto simp: Inr)
    qed
  qed
qed

lemma remove_duplicates_dedupe_from: "remove_duplicates games = dedupe_from games []"
  unfolding remove_duplicates_def
  by (rule dedup_loop_dedupe_from) (simp add: seen_inv_def)

lemma dedupe_from_append:
  "dedupe_from (xs @ ys) u =
     (case dedupe_from xs u of Inl e \<Rightarrow> Inl e | Inr u' \<Rightarrow> dedupe_from ys u')"
  by (induction xs arbitrary: u) (auto split: sum.splits)

text \<open>
  A run that returns has only added offers of the input, in their order, to the
  accepted ones, and running the loop again on what it added accepts all of it.
\<close>

lemma dedupe_from_extends:
  "dedupe_from gs u = Inr r \<Longrightarrow>
   \<exists>acc. r = u @ acc \<and> subseq acc gs \<and> dedupe_from acc u = Inr r"
proof (induction gs arbitrary: u)
  case Nil
  then show ?case by auto
next
  case (Cons g gs)
  from Cons.prems obtain t where t: "title_lower_of g = Inr t"
    by (cases "title_lower_of g") auto
  from Cons.prems t have nz: "\<not> (wordless g \<and> (\<exists>h \<in> set u. wordless h))"
    by (auto split: if_splits)
  show ?case
  proof (cases "\<exists>h \<in> set u. similar h g")
    case True
    with Cons.prems t nz have "dedupe_from gs u = Inr r" by auto
    from Cons.IH[OF this] obtain acc where
      "r = u @ acc" "subseq acc gs" "dedupe_from acc u = Inr r" by blast
    then show ?thesis by (intro exI[of _ acc]) auto
  next
    case False
    with Cons.prems t nz have "dedupe_from gs (u @ [g]) = Inr r" by auto
    from Cons.IH[OF this] obtain acc where
      a: "r = (u @ [g]) @ acc" "subseq acc gs" "dedupe_from acc (u @ [g]) = Inr r" by blast
    have "dedupe_from (g # acc) u = Inr r"
      using a(3) t nz False by auto
    with a show ?thesis by (intro exI[of _ "g # acc"]) auto
  qed
qed

subsection \<open>Titles with a word character\<close>

lemma is_word_char_lower: "is_word_char c \<Longrightarrow> is_word_char (lower_char c)"
  by (auto simp: is_word_char_def lower_char_def is_upper_def Let_def)

lemma word_char_not_space: "is_word_char c \<Longrightarrow> \<not> is_space c"
  by (auto simp: is_word_char_def is_space_def Let_def)

lemma in_dropWhile: "x \<in> set xs \<Longrightarrow> \<not> P x \<Longrightarrow> x \<in> set (dropWhile P xs)"
  by (induction xs) auto

lemma findall_from_empty:
  "(findall_from cur s = []) = (cur = [] \<and> (\<forall>c \<in> set s. \<not> is_word_char c))"
  by (induction s arbitrary: cur) auto

lemma tokens_empty: "(tokens s = {}) = (\<forall>c \<in> set s. \<not> is_word_char c)"
  by (simp add: tokens_def findall_words_def findall_from_empty)

lemma tokens_normalized:
  assumes "c \<in> set t" "is_word_char c"
  shows "tokens (strip (lower t)) \<noteq> {}"
proof -
  have "lower_char c \<in> set (lower t)" using assms(1) by (simp add: lower_def)
  moreover have w: "is_word_char (lower_char c)" by (rule is_word_char_lower[OF assms(2)])
  ultimately have "lower_char c \<in> set (strip (lower t))"
    unfolding strip_def using word_char_not_space[OF w]
    by (simp add: in_dropWhile)
  with w show ?thesis by (auto simp: tokens_empty)
qed

lemma dedupe_from_returns:
  "\<forall>g \<in> set gs. \<exists>t. title_lower_of g = Inr t \<and> tokens t \<noteq> {} \<Longrightarrow>
   \<exists>out. dedupe_from gs u = Inr out"
proof (induction gs arbitrary: u)
  case Nil
  then show ?case by simp
next
  case (Cons g gs)
  then obtain t where t: "title_lower_of g = Inr t" "tokens t \<noteq> {}" by auto
  then have nw: "\<not> wordless g" by (simp add: wordless_def)
  from Cons have ih: "\<And>u. \<exists>out. dedupe_from gs u = Inr out" by simp
  show ?case using ih[of u] ih[of "u @ [g]"] t nw by auto
qed

section \<open>Claims about the deduplicator\<close>

text \<open>
  Claim C6. The deduplicator is idempotent: for every list of offers \<open>x\<close>,
  \<^verbatim>\<open>Dedupe(Dedupe(x)) == Dedupe(x)\<close>. Both sides are outcomes of the Python
  expression: the list returned, or the exception raised. Where the first pass
  returns, the second returns the same list; where it raises, so does the whole
  expression.
\<close>

theorem dedupe_idempotent:
  "(case remove_duplicates games of Inl e \<Rightarrow> Inl e | Inr out \<Rightarrow> remove_duplicates out) =
   remove_duplicates games"
proof (cases "remove_duplicates games")
  case (Inl e)
  then show ?thesis by simp
next
  case (Inr out)
  then have d: "dedupe_from games [] = Inr out" by (simp add: remove_duplicates_dedupe_from)
  from dedupe_from_extends[OF this] have "dedupe_from out [] = Inr out" by auto
  with d show ?thesis by (simp add: remove_duplicates_dedupe_from)
qed

theorem dedupe_idempotent_witness:
  "remove_duplicates
     [[(''title'', PyStr ''Game A''), (''platform'', PyStr ''GOG'')],
      [(''title'', PyStr ''game a''), (''platform'', PyStr ''Steam'')],
      [(''title'', PyStr ''Game B''), (''platform'', PyStr ''Steam'')]] =
     Inr [[(''title'', PyStr ''Game A''), (''platform'', PyStr ''GOG'')],
          [(''title'', PyStr ''Game B''), (''platform'', PyStr ''Steam'')]] \<and>
   remove_duplicates
     [[(''title'', PyStr ''Game A''), (''platform'', PyStr ''GOG'')],
      [(''title'', PyStr ''Game B''), (''platform'', PyStr ''Steam'')]] =
     Inr [[(''title'', PyStr ''Game A''), (''platform'', PyStr ''GOG'')],
          [(''title'', PyStr ''Game B''), (''platform'', PyStr ''Steam'')]]"
proof -
  have h: "remove_duplicates
     [[(''title'', PyStr ''Game A''), (''platform'', PyStr ''GOG'')],
      [(''title'', PyStr ''game a''), (''platform'', PyStr ''Steam'')],
      [(''title'', PyStr ''Game B''), (''platform'', PyStr ''Steam'')]] =
     Inr [[(''title'', PyStr ''Game A''), (''platform'', PyStr ''GOG'')],
          [(''title'', PyStr ''Game B''), (''platform'', PyStr ''Steam'')]]"
    by code_simp
  show ?thesis
    using dedupe_idempotent[of
      "[[(''title'', PyStr ''Game A''), (''platform'', PyStr ''GOG'')],
        [(''title'', PyStr ''game a''), (''platform'', PyStr ''Steam'')],
        [(''title'', PyStr ''Game B''), (''platform'', PyStr ''Steam'')]]"]
    unfolding h by simp
qed

text \<open>
  Claim C7. The output of the deduplicator is an order-preserving subsequence of its
  input, made of input offers as they are (no field is changed or merged). The first
  offer seen wins: at every point of the input, the offers retained so far stay the
  beginning of the final output, and the next offer is dropped when one of them is
  classified as its duplicate and appended unchanged otherwise.
\<close>

theorem first_seen_wins:
  assumes "remove_duplicates games = Inr out"
  shows "subseq out games \<and>
    (\<forall>pre g post. games = pre @ g # post \<longrightarrow>
       (\<exists>kept. remove_duplicates pre = Inr kept \<and> prefix kept out \<and>
          remove_duplicates (pre @ [g]) =
            Inr (if \<exists>h \<in> set kept. similar h g then kept else kept @ [g])))"
proof (intro conjI allI impI)
  from assms have d: "dedupe_from games [] = Inr out"
    by (simp add: remove_duplicates_dedupe_from)
  from dedupe_from_extends[OF d] show "subseq out games" by auto
  fix pre g post
  assume split: "games = pre @ g # post"
  from d split obtain kept where k: "dedupe_from pre [] = Inr kept"
    and rest: "dedupe_from (g # post) kept = Inr out"
    by (auto simp: dedupe_from_append split: sum.splits)
  from rest obtain t where t: "title_lower_of g = Inr t"
    by (cases "title_lower_of g") auto
  from rest t have nz: "\<not> (wordless g \<and> (\<exists>h \<in> set kept. wordless h))"
    by (auto split: if_splits)
  from dedupe_from_extends[OF rest] have p: "prefix kept out"
    by (auto simp: prefix_def)
  have "dedupe_from (pre @ [g]) [] =
      Inr (if \<exists>h \<in> set kept. similar h g then kept else kept @ [g])"
    using k t nz by (auto simp: dedupe_from_append)
  with k p show "\<exists>kept. remove_duplicates pre = Inr kept \<and> prefix kept out \<and>
          remove_duplicates (pre @ [g]) =
            Inr (if \<exists>h \<in> set kept. similar h g then kept else kept @ [g])"
    by (auto simp: remove_duplicates_dedupe_from)
qed

theorem first_seen_wins_witness:
  "remove_duplicates
     [[(''title'', PyStr ''Control Ultimate Edition''), (''url'', PyStr ''https://a.example/1'')],
      [(''title'', PyStr ''Control: Ultimate Edition''), (''url'', PyStr ''https://b.example/2'')]] =
     Inr [[(''title'', PyStr ''Control Ultimate Edition''), (''url'', PyStr ''https://a.example/1'')]] \<and>
   subseq
     [[(''title'', PyStr ''Control Ultimate Edition''), (''url'', PyStr ''https://a.example/1'')]]
     [[(''title'', PyStr ''Control Ultimate Edition''), (''url'', PyStr ''https://a.example/1'')],
      [(''title'', PyStr ''Control: Ultimate Edition''), (''url'', PyStr ''https://b.example/2'')]]"
proof -
  have h: "remove_duplicates
     [[(''title'', PyStr ''Control Ultimate Edition''), (''url'', PyStr ''https://a.example/1'')],
      [(''title'', PyStr ''Control: Ultimate Edition''), (''url'', PyStr ''https://b.example/2'')]] =
     Inr [[(''title'', PyStr ''Control Ultimate Edition''), (''url'', PyStr ''https://a.example/1'')]]"
    by code_simp
  from first_seen_wins[OF h] h show ?thesis by blast
qed

text \<open>
  Claim C10. On a list of offers whose titles each contain a word character the
  overlap never divides by zero and the deduplicator returns. The condition is
  needed: for two titles without word characters the denominator
  \<^verbatim>\<open>max(len(title_words), len(seen_words))\<close> is zero when the second is compared with
  the first, and the deduplicator raises \<^verbatim>\<open>ZeroDivisionError\<close>.
\<close>

theorem no_zero_division:
  "((\<forall>g \<in> set games. \<exists>t. map_of g ''title'' = Some (PyStr t) \<and> (\<exists>c \<in> set t. is_word_char c))
      \<longrightarrow> (\<exists>out. remove_duplicates games = Inr out)) \<and>
   max (card (tokens (strip (lower ''???'')))) (card (tokens (strip (lower ''!!!'')))) = 0 \<and>
   remove_duplicates [[(''title'', PyStr ''!!!'')], [(''title'', PyStr ''???'')]] =
     Inl ZeroDivisionError"
proof (intro conjI impI)
  assume h: "\<forall>g \<in> set games. \<exists>t. map_of g ''title'' = Some (PyStr t) \<and> (\<exists>c \<in> set t. is_word_char c)"
  have "\<forall>g \<in> set games. \<exists>t. title_lower_of g = Inr t \<and> tokens t \<noteq> {}"
  proof
    fix g assume "g \<in> set games"
    with h obtain t c where "map_of g ''title'' = Some (PyStr t)" "c \<in> set t" "is_word_char c"
      by blast
    then show "\<exists>t. title_lower_of g = Inr t \<and> tokens t \<noteq> {}"
      using tokens_normalized by (auto simp: title_lower_of_def)
  qed
  from dedupe_from_returns[OF this] show "\<exists>out. remove_duplicates games = Inr out"
    by (simp add: remove_duplicates_dedupe_from)
next
  show "max (card (tokens (strip (lower ''???'')))) (card (tokens (strip (lower ''!!!'')))) = 0"
    by code_simp
next
  show "remove_duplicates [[(''title'', PyStr ''!!!'')], [(''title'', PyStr ''???'')]] =
     Inl ZeroDivisionError"
    by code_simp
qed

theorem no_zero_division_witness:
  "\<exists>out. remove_duplicates
     [[(''title'', PyStr ''Control'')], [(''title'', PyStr ''Control Ultimate Edition'')]] = Inr out"
proof -
  have "\<forall>g \<in> set [[(''title'', PyStr ''Control'')], [(''title'', PyStr ''Control Ultimate Edition'')]].
          \<exists>t. map_of g ''title'' = Some (PyStr t) \<and> (\<exists>c \<in> set t. is_word_char c)"
    by (simp add: is_word_char_def)
  with no_zero_division[of "[[(''title'', PyStr ''Control'')], [(''title'', PyStr ''Control Ultimate Edition'')]]"]
  show ?thesis by blast
qed

text \<open>
  Claim C1. The deduplicator drops an offer exactly when a previously accepted title
  overlaps with its title by more than 0.8, and accepts it otherwise. The code does
  not do so on every list: the second of two offers whose titles have no word
  character is neither dropped nor accepted, the comparison raises
  \<^verbatim>\<open>ZeroDivisionError\<close> and the deduplicator returns no list.
\<close>

theorem dedupe_wordless_titles_raise:
  "remove_duplicates
     [[(''title'', PyStr ''???''), (''platform'', PyStr ''itch.io'')],
      [(''title'', PyStr ''!!!''), (''platform'', PyStr ''itch.io'')]] = Inl ZeroDivisionError"
  by code_simp

subsection \<open>The code and the deduplicator of the specification\<close>

lemma titled_title: "titled g \<Longrightarrow> title_lower_of g = Inr (normalized_title g)"
  by (auto simp: titled_def title_lower_of_def normalized_title_def
      split: option.splits pyval.splits)

lemma similar_titled:
  "titled h \<Longrightarrow> titled g \<Longrightarrow>
   similar h g = (overlap (tokens (normalized_title g)) (tokens (normalized_title h)) > 0.8)"
  by (simp add: similar_def titled_title)

lemma dedupe_from_Dedupe_from:
  assumes "\<forall>g \<in> set (u @ gs). titled g" and "length (filter wordless (u @ gs)) \<le> 1"
  shows "dedupe_from gs u = Inr (u @ Dedupe_from (map normalized_title u) gs)"
  using assms
proof (induction gs arbitrary: u)
  case Nil
  then show ?case by simp
next
  case (Cons g gs)
  from Cons.prems(1) have tg: "titled g" and tu: "\<forall>h \<in> set u. titled h" by simp_all
  have nz: "\<not> (wordless g \<and> (\<exists>h \<in> set u. wordless h))"
  proof
    assume a: "wordless g \<and> (\<exists>h \<in> set u. wordless h)"
    then have "filter wordless u \<noteq> []" by (auto simp: filter_empty_conv)
    then have "1 \<le> length (filter wordless u)" by (cases "filter wordless u") simp_all
    with a Cons.prems(2) show False by simp
  qed
  have sim: "(\<exists>h \<in> set u. similar h g) =
      (\<exists>s \<in> set (map normalized_title u).
          overlap (tokens (normalized_title g)) (tokens s) > 0.8)"
    using tu tg by (auto simp: similar_titled)
  have p1: "\<forall>x \<in> set (u @ gs). titled x" using Cons.prems(1) by simp
  have p2: "length (filter wordless (u @ gs)) \<le> 1" using Cons.prems(2) by (simp split: if_splits)
  have q1: "\<forall>x \<in> set ((u @ [g]) @ gs). titled x" using Cons.prems(1) by simp
  have q2: "length (filter wordless ((u @ [g]) @ gs)) \<le> 1" using Cons.prems(2) by simp
  show ?case
  proof (cases "\<exists>h \<in> set u. similar h g")
    case True
    with Cons.IH[OF p1 p2] nz sim show ?thesis by (simp add: titled_title[OF tg])
  next
    case False
    with Cons.IH[OF q1 q2] nz sim show ?thesis by (simp add: titled_title[OF tg])
  qed
qed

text \<open>
  On offers that have a string as their title, at most one of them without a word
  character, the code computes what the specification describes.
\<close>

lemma remove_duplicates_refines_Dedupe:
  assumes "\<forall>g \<in> set games. titled g" and "length (filter wordless games) \<le> 1"
  shows "remove_duplicates games = Inr (Dedupe games)"
  using dedupe_from_Dedupe_from[of "[]" games] assms
  by (simp add: remove_duplicates_dedupe_from Dedupe_def)

lemma remove_duplicates_Control:
  "remove_duplicates
     [[(''title'', PyStr ''Control Ultimate Edition'')],
      [(''title'', PyStr ''Control: Ultimate Edition'')]] =
     Inr [[(''title'', PyStr ''Control Ultimate Edition'')]] \<and>
   remove_duplicates
     [[(''title'', PyStr ''Control'')], [(''title'', PyStr ''Control Ultimate Edition'')]] =
     Inr [[(''title'', PyStr ''Control'')], [(''title'', PyStr ''Control Ultimate Edition'')]]"
proof -
  let ?a = "[[(''title'', PyStr ''Control Ultimate Edition'')],
      [(''title'', PyStr ''Control: Ultimate Edition'')]]"
  let ?b = "[[(''title'', PyStr ''Control'')], [(''title'', PyStr ''Control Ultimate Edition'')]]"
  have ta: "\<forall>g \<in> set ?a. titled g" and tb: "\<forall>g \<in> set ?b. titled g"
    by (simp_all add: titled_def)
  have wa: "length (filter wordless ?a) \<le> 1" and wb: "length (filter wordless ?b) \<le> 1"
    by code_simp+
  have da: "Dedupe ?a = [[(''title'', PyStr ''Control Ultimate Edition'')]]"
    by code_simp
  have db: "Dedupe ?b = ?b"
    by code_simp
  from remove_duplicates_refines_Dedupe[OF ta wa] remove_duplicates_refines_Dedupe[OF tb wb] da db
  show ?thesis by simp
qed

section \<open>The orchestrator\<close>

lemma collect_results_concat:
  "\<forall>c \<in> set cs. \<forall>e. snd c = Inl e \<longrightarrow> is_Exception e \<Longrightarrow>
   collect_results cs acc = Inr (acc @ concat (map offers_of cs))"
proof (induction cs arbitrary: acc)
  case Nil
  then show ?case by simp
next
  case (Cons c cs)
  obtain name result where c: "c = (name, result)" by (cases c)
  show ?case
  proof (cases result)
    case (Inl e)
    with Cons.prems c have "is_Exception e" by simp
    with Cons c Inl show ?thesis by (simp add: offers_of_def)
  next
    case (Inr games)
    with Cons c show ?thesis by (simp add: offers_of_def)
  qed
qed

text \<open>
  Claim C2, as amended. When one of the adapters fails and the others succeed, the
  list accumulated by the orchestrator is the concatenation, in the order of
  completion, of the lists that the adapters returned. An adapter whose future raises
  contributes no offer; an adapter that fails inside its own \<^verbatim>\<open>try\<close> has caught the
  exception and returned the offers it had built before, and these are collected
  like those of any other adapter. They are none when the fetch itself failed, and an
  adapter that contributes none leaves the result as if it had not run. In all cases
  the offers of the adapters that complete before and after the failing one are all
  collected.
\<close>

theorem failing_adapter_contributes_what_it_returned:
  assumes "\<forall>c \<in> set (before @ after). \<exists>games. snd c = Inr games"
    and "\<forall>e. r = Inl e \<longrightarrow> is_Exception e"
  shows "collect_results (before @ (k, future_result r) # after) [] =
           Inr (concat (map offers_of before) @ offers_of (k, future_result r) @
                concat (map offers_of after)) \<and>
         offers_of (k, future_result r) = (case r of Inl e \<Rightarrow> [] | Inr out \<Rightarrow> returned out) \<and>
         (offers_of (k, future_result r) = [] \<longrightarrow>
            collect_results (before @ (k, future_result r) # after) [] =
              collect_results (before @ after) []) \<and>
         (is_Exception e \<longrightarrow>
            future_result (scrape_epic_games R (Inl e)) = Inr [] \<and>
            future_result (scrape_steam_weekend_deals R (Inl e)) = Inr [] \<and>
            future_result (scrape_microsoft_store (Inl e)) = Inr [])"
proof -
  have b: "\<forall>c \<in> set (before @ after). \<forall>e'. snd c = Inl e' \<longrightarrow> is_Exception e'"
  proof (intro ballI allI impI)
    fix c e'
    assume "c \<in> set (before @ after)" and l: "snd c = Inl e'"
    with assms(1) obtain games where "snd c = Inr games" by blast
    with l show "is_Exception e'" by simp
  qed
  have k: "\<forall>e'. snd (k, future_result r) = Inl e' \<longrightarrow> is_Exception e'"
    using assms(2) by (cases r) (simp_all add: future_result_def)
  have s: "set (before @ (k, future_result r) # after) =
      insert (k, future_result r) (set (before @ after))"
    by simp
  have a: "\<forall>c \<in> set (before @ (k, future_result r) # after).
      \<forall>e'. snd c = Inl e' \<longrightarrow> is_Exception e'"
    unfolding s using b k by blast
  have c1: "collect_results (before @ (k, future_result r) # after) [] =
           Inr (concat (map offers_of before) @ offers_of (k, future_result r) @
                concat (map offers_of after))"
    by (simp add: collect_results_concat[OF a])
  have c2: "offers_of (k, future_result r) = (case r of Inl e \<Rightarrow> [] | Inr out \<Rightarrow> returned out)"
    by (cases r) (simp_all add: offers_of_def future_result_def)
  have c3: "offers_of (k, future_result r) = [] \<longrightarrow>
            collect_results (before @ (k, future_result r) # after) [] =
              collect_results (before @ after) []"
    by (simp add: c1 collect_results_concat[OF b])
  have c4: "is_Exception e \<longrightarrow>
            future_result (scrape_epic_games R (Inl e)) = Inr [] \<and>
            future_result (scrape_steam_weekend_deals R (Inl e)) = Inr [] \<and>
            future_result (scrape_microsoft_store (Inl e)) = Inr []"
    by (simp add: future_result_def scrape_epic_games_def scrape_steam_weekend_deals_def
        scrape_microsoft_store_def epic_body_def steam_body_def bind_exn_def adapter_boundary_def)
  from c1 c2 c3 c4 show ?thesis by blast
qed

theorem failing_adapter_contributes_what_it_returned_witness:
  "collect_results
     [(''scrape_steam_weekend_deals'', Inr [[(''title'', PyStr ''Portal'')]]),
      (''scrape_epic_games'',
         future_result (scrape_epic_games no_repr
           (Inr (epic_document [epic_element ''Paid Game'' 2999, PyInt 5])))),
      (''scrape_gog_giveaways'', Inr [[(''title'', PyStr ''Game B'')], [(''title'', PyStr ''Game C'')]])] [] =
   Inr [[(''title'', PyStr ''Portal'')], epic_offer ''Paid Game'' ''$29.99'',
        [(''title'', PyStr ''Game B'')], [(''title'', PyStr ''Game C'')]] \<and>
   collect_results
     [(''scrape_steam_weekend_deals'', Inr [[(''title'', PyStr ''Portal'')]]),
      (''scrape_epic_games'', future_result (scrape_epic_games no_repr (Inl RequestException))),
      (''scrape_gog_giveaways'', Inr [[(''title'', PyStr ''Game B'')], [(''title'', PyStr ''Game C'')]])] [] =
   Inr [[(''title'', PyStr ''Portal'')], [(''title'', PyStr ''Game B'')], [(''title'', PyStr ''Game C'')]]"
proof -
  let ?b = "[(''scrape_steam_weekend_deals'', Inr [[(''title'', PyStr ''Portal'')]])] ::
    completed"
  let ?a = "[(''scrape_gog_giveaways'',
      Inr [[(''title'', PyStr ''Game B'')], [(''title'', PyStr ''Game C'')]])] :: completed"
  let ?r = "scrape_epic_games no_repr
      (Inr (epic_document [epic_element ''Paid Game'' 2999, PyInt 5]))"
  let ?f = "scrape_epic_games no_repr (Inl RequestException)"
  have h1: "\<forall>c \<in> set (?b @ ?a). \<exists>games. snd c = Inr games"
    by simp
  have run: "?r = Inr \<lparr>returned = [epic_offer ''Paid Game'' ''$29.99''],
      error_logged = Some AttributeError\<rparr>"
    by code_simp
  have fail: "?f = Inr \<lparr>returned = [], error_logged = Some RequestException\<rparr>"
    by code_simp
  have h2: "\<forall>e. ?r = Inl e \<longrightarrow> is_Exception e"
    by (simp add: run)
  have h3: "\<forall>e. ?f = Inl e \<longrightarrow> is_Exception e"
    by (simp add: fail)
  note t1 = failing_adapter_contributes_what_it_returned[OF h1 h2, of "''scrape_epic_games''",
      THEN conjunct1]
  note t2 = failing_adapter_contributes_what_it_returned[OF h1 h3, of "''scrape_epic_games''",
      THEN conjunct1]
  from t1 t2 show ?thesis
    by (simp add: offers_of_def future_result_def run fail)
qed

text \<open>
  The counterexample to claim C2 as stated: the Epic adapter fails on the second
  catalog element, after the first has given an offer. It logs the error and returns
  that offer, and the orchestrator collects it: the failing adapter contributes one
  offer, not zero.
\<close>

theorem failed_adapter_offers_are_collected:
  "scrape_epic_games no_repr (Inr (epic_document [epic_element ''Paid Game'' 2999, PyInt 5])) =
     Inr \<lparr>returned = [epic_offer ''Paid Game'' ''$29.99''],
          error_logged = Some AttributeError\<rparr> \<and>
   scrape_all_platforms_threaded
     [(''scrape_steam_weekend_deals'', Inr [[(''title'', PyStr ''Portal'')]]),
      (''scrape_epic_games'',
         future_result (scrape_epic_games no_repr
           (Inr (epic_document [epic_element ''Paid Game'' 2999, PyInt 5]))))] =
     Inr [[(''title'', PyStr ''Portal'')], epic_offer ''Paid Game'' ''$29.99'']"
  by code_simp

section \<open>The adapters\<close>

subsection \<open>Exceptions raised by the code of the adapters\<close>

lemma safe_Inr [simp]: "safe (Inr x)"
  by (simp add: safe_def)

lemma safe_Inl [simp]: "safe (Inl e) = is_Exception e"
  by (simp add: safe_def)

lemma safe_bind: "safe m \<Longrightarrow> (\<And>x. safe (f x)) \<Longrightarrow> safe (bind_exn m f)"
  by (cases m) (simp_all add: bind_exn_def)

lemma safe_if: "safe a \<Longrightarrow> safe b \<Longrightarrow> safe (if c then a else b)"
  by simp

lemma safe_py_in [simp]: "safe (py_in k v)"
  by (cases v) (simp_all add: is_Exception_def)

lemma safe_py_getitem [simp]: "safe (py_getitem v k)"
  by (cases v) (simp_all add: is_Exception_def split: option.splits)

lemma safe_py_get [simp]: "safe (py_get v k d)"
  by (cases v) (simp_all add: is_Exception_def)

lemma safe_py_first [simp]: "safe (py_first v)"
  by (cases v rule: py_first.cases) (simp_all add: is_Exception_def)

lemma safe_py_iter [simp]: "safe (py_iter v)"
  by (cases v) (simp_all add: is_Exception_def)

lemma safe_py_gt0 [simp]: "safe (py_gt0 v)"
  by (simp add: py_gt0_def is_Exception_def split: option.splits)

lemma safe_epic_game_info [simp]: "safe (epic_game_info R game offer p)"
  unfolding epic_game_info_def by (intro safe_bind safe_py_get safe_py_getitem safe_py_first safe_Inr)

lemma safe_epic_elements [simp]: "safe (epic_elements data)"
  unfolding epic_elements_def
  by (intro safe_bind safe_if safe_py_get safe_py_getitem safe_py_in safe_py_iter safe_Inr)

lemma safe_steam_items [simp]: "safe (steam_items data)"
  unfolding steam_items_def
  by (intro safe_bind safe_if safe_py_get safe_py_getitem safe_py_in safe_py_iter safe_Inr)

lemma safe_steam_test [simp]: "safe (steam_test item)"
  unfolding steam_test_def
  by (intro safe_bind safe_if safe_py_get safe_py_gt0 safe_Inr)

lemma safe_format_dollars [simp]: "safe (format_dollars cents)"
  by (simp add: format_dollars_def true_divide_100_def Let_def is_Exception_def)

lemma safe_steam_game_info [simp]: "safe (steam_game_info R item)"
  unfolding steam_game_info_def
  by (intro safe_bind safe_py_get safe_Inr) (simp add: is_Exception_def split: option.splits)

lemma safe_D: "safe m \<Longrightarrow> m = Inl e \<Longrightarrow> is_Exception e"
  by simp

lemma safe_run_None [simp]: "safe_run (games, None)"
  by (simp add: safe_run_def)

lemma safe_run_Some [simp]: "safe_run (games, Some e) = is_Exception e"
  by (simp add: safe_run_def)

lemma safe_epic_offers_loop: "safe_run (epic_offers_loop R game offers games)"
proof (induction offers arbitrary: games)
  case Nil
  then show ?case by simp
next
  case (Cons offer offers)
  show ?case
    using Cons[of games] Cons[of "games @ [x]" for x]
      safe_D[OF safe_py_get, of offer "''promotionalOffers''" PyNone]
      safe_D[OF safe_epic_game_info, of R game offer "get_epic_original_price game"]
    by (auto simp: Let_def split: sum.splits)
qed

lemma safe_epic_elements_loop: "safe_run (epic_elements_loop R elements games)"
proof (induction elements arbitrary: games)
  case Nil
  then show ?case by simp
next
  case (Cons game elements)
  have b: "\<And>p e. bind_exn (py_getitem p ''promotionalOffers'') py_iter = Inl e \<Longrightarrow> is_Exception e"
    by (rule safe_D[OF safe_bind]) simp_all
  have o: "\<And>offers games' e. epic_offers_loop R game offers games = (games', Some e) \<Longrightarrow> is_Exception e"
    using safe_epic_offers_loop[of R game _ games] by (metis safe_run_Some)
  show ?case
    using Cons[of games] Cons[of games' for games'] b o
      safe_D[OF safe_py_get, of game "''promotions''" PyNone]
      safe_D[OF safe_py_get, of _ "''promotionalOffers''" PyNone]
    by (auto split: sum.splits prod.splits option.splits)
qed

lemma safe_steam_items_loop: "safe_run (steam_items_loop R items games)"
proof (induction items arbitrary: games)
  case Nil
  then show ?case by simp
next
  case (Cons item items)
  show ?case
    using Cons[of games] Cons[of "games @ [x]" for x]
      safe_D[OF safe_steam_test, of item]
      safe_D[OF safe_steam_game_info, of R item]
    by (auto split: sum.splits)
qed

lemma safe_epic_body:
  "(\<forall>e. response = Inl e \<longrightarrow> is_Exception e) \<Longrightarrow> safe_run (epic_body R response)"
  using safe_D[OF safe_epic_elements] safe_epic_elements_loop
  by (cases response) (auto simp: epic_body_def bind_exn_def split: sum.splits option.splits)

lemma safe_steam_body:
  "(\<forall>e. response = Inl e \<longrightarrow> is_Exception e) \<Longrightarrow> safe_run (steam_body R response)"
  using safe_D[OF safe_steam_items] safe_steam_items_loop
  by (cases response) (auto simp: steam_body_def bind_exn_def split: sum.splits option.splits)

lemma adapter_boundary_safe:
  "safe_run r \<Longrightarrow> adapter_boundary r = Inr \<lparr>returned = fst r, error_logged = snd r\<rparr>"
  by (cases r) (auto simp: adapter_boundary_def safe_run_def split: option.splits)

subsection \<open>Steam\<close>

lemma steam_test_reached:
  "steam_error item = None \<Longrightarrow> steam_test item = Inr (steam_condition item)"
  by (cases item)
     (auto simp: steam_error_def steam_test_def steam_condition_def bind_exn_def offer_get_def
        py_eq_int_def py_gt0_def split: option.splits if_splits)

lemma steam_game_info_reached:
  "steam_error item = None \<Longrightarrow> steam_condition item \<Longrightarrow> \<exists>info. steam_game_info R item = Inr info"
  by (cases item)
     (auto simp: steam_error_def steam_game_info_def steam_condition_def bind_exn_def
        offer_get_def split: option.splits if_splits sum.splits)

lemma steam_error_raised:
  "steam_error item = Some e \<Longrightarrow>
   steam_test item = Inl e \<or> (steam_test item = Inr True \<and> steam_game_info R item = Inl e)"
  by (cases item)
     (auto simp: steam_error_def steam_test_def steam_game_info_def bind_exn_def offer_get_def
        py_eq_int_def py_gt0_def split: option.splits if_splits sum.splits)

lemma steam_reached_Cons:
  "steam_reached (item # items) =
     (if steam_error item = None then item # steam_reached items else [])"
  by (simp add: steam_reached_def)

lemma steam_first_error_Cons:
  "steam_first_error (item # items) =
     (if steam_error item = None then steam_first_error items else steam_error item)"
  by (simp add: steam_first_error_def)

lemma steam_items_loop_reached:
  "\<exists>games'. steam_items_loop R items games = (games', steam_first_error items) \<and>
     map Inr games' =
       map Inr games @ map (steam_game_info R) (filter steam_condition (steam_reached items))"
proof (induction items arbitrary: games)
  case Nil
  then show ?case by (simp add: steam_reached_def steam_first_error_def)
next
  case (Cons item items)
  show ?case
  proof (cases "steam_error item")
    case (Some e)
    from steam_error_raised[OF Some, of R] Some show ?thesis
      by (auto simp: steam_reached_Cons steam_first_error_Cons)
  next
    case None
    note t = steam_test_reached[OF None]
    show ?thesis
    proof (cases "steam_condition item")
      case True
      from steam_game_info_reached[OF None True] obtain info where
        i: "steam_game_info R item = Inr info" ..
      from Cons.IH[of "games @ [info]"] obtain games' where
        "steam_items_loop R items (games @ [info]) = (games', steam_first_error items)"
        "map Inr games' = map Inr (games @ [info]) @
           map (steam_game_info R) (filter steam_condition (steam_reached items))"
        by blast
      then show ?thesis
        using t True i None by (simp add: steam_reached_Cons steam_first_error_Cons)
    next
      case False
      from Cons.IH[of games] show ?thesis
        using t False None by (simp add: steam_reached_Cons steam_first_error_Cons)
    qed
  qed
qed

lemma steam_price_text:
  assumes "steam_game_info R (PyDict kvs) = Inr info"
    and "map_of kvs ''original_price'' = Some (PyInt n)"
    and "format_dollars n = Inr s"
  shows "map_of info ''original_price'' = Some (PyStr s)"
  using assms by (auto simp: steam_game_info_def bind_exn_def)

lemma format_1999: "format_dollars 1999 = Inr ''$19.99''"
  by code_simp

text \<open>A price too large for a float: the division raises.\<close>

lemma format_overflow: "format_dollars (10 ^ 400) = Inl OverflowError"
  by code_simp

subsection \<open>Epic Games\<close>

lemma py_getitem_get: "py_getitem p k = Inr v \<Longrightarrow> py_get p k d = Inr v"
  by (cases p) (auto split: option.splits)

lemma py_get_iter_getitem:
  "py_get p k PyNone = Inr v \<Longrightarrow> py_iter v = Inr xs \<Longrightarrow> py_getitem p k = Inr v"
  by (cases p) (auto split: option.splits)

lemma py_iter_truthy: "py_iter v = Inr xs \<Longrightarrow> xs \<noteq> [] \<Longrightarrow> truthy v"
  by (cases v) auto

lemma epic_game_info_price:
  "epic_game_info R game offer p = Inr info \<Longrightarrow> map_of info ''original_price'' = Some (PyStr p)"
  by (auto simp: epic_game_info_def bind_exn_def split: sum.splits)

lemma epic_price_known:
  assumes "original_price_cents game = Some n"
  shows "get_epic_original_price game =
     (if 0 < n then (case format_dollars n of Inl e \<Rightarrow> ''Unknown'' | Inr s \<Rightarrow> s) else ''Free'')"
proof -
  from assms obtain kvs p tp where g: "game = PyDict kvs"
    "map_of kvs ''price'' = Some (PyDict p)" "map_of p ''totalPrice'' = Some (PyDict tp)"
    "map_of tp ''originalPrice'' = Some (PyInt n)"
    by (auto simp: original_price_cents_def split: pyval.splits option.splits)
  from g(4) have "tp \<noteq> []" by auto
  with g show ?thesis
    by (simp add: get_epic_original_price_def epic_price_body_def bind_exn_def py_gt0_def
        split: sum.splits)
qed

lemma format_dollars_not_Free: "format_dollars n = Inr s \<Longrightarrow> s \<noteq> ''Free''"
  by (auto simp: format_dollars_def split: if_splits sum.splits)

lemma epic_price_positive:
  "original_price_cents game = Some n \<Longrightarrow> get_epic_original_price game \<noteq> ''Free'' \<Longrightarrow> 0 < n"
  using epic_price_known[of game n] by (auto split: if_splits)

lemma epic_price_unknown:
  "map_of kvs ''price'' = None \<Longrightarrow> get_epic_original_price (PyDict kvs) = ''Unknown''"
  by (simp add: get_epic_original_price_def epic_price_body_def bind_exn_def)

lemma epic_offers_loop_free:
  "get_epic_original_price game = ''Free'' \<Longrightarrow>
   fst (epic_offers_loop R game offers games) = games"
  by (induction offers arbitrary: games) (auto simp: Let_def split: sum.splits)

lemma epic_offers_loop_sound:
  "epic_offers_loop R game offers games = (games', r) \<Longrightarrow> info \<in> set games' \<Longrightarrow>
   info \<in> set games \<or>
   (\<exists>offer \<in> set offers. is_active offer \<and> get_epic_original_price game \<noteq> ''Free'' \<and>
      epic_game_info R game offer (get_epic_original_price game) = Inr info)"
proof (induction offers arbitrary: games)
  case Nil
  then show ?case by simp
next
  case (Cons offer offers)
  show ?case
  proof (cases "py_get offer ''promotionalOffers'' PyNone")
    case (Inl e)
    with Cons.prems show ?thesis by simp
  next
    case (Inr active)
    show ?thesis
    proof (cases "truthy active \<and> get_epic_original_price game \<noteq> ''Free''")
      case False
      with Cons.prems Inr have "epic_offers_loop R game offers games = (games', r)"
        by (auto simp: Let_def split: if_splits)
      from Cons.IH[OF this Cons.prems(2)] show ?thesis by auto
    next
      case True
      then have act: "is_active offer" by (simp add: is_active_def Inr)
      show ?thesis
      proof (cases "epic_game_info R game offer (get_epic_original_price game)")
        case (Inl e)
        with Cons.prems Inr True show ?thesis by (simp add: Let_def)
      next
        case inf: (Inr game_info)
        with Cons.prems Inr True
        have "epic_offers_loop R game offers (games @ [game_info]) = (games', r)"
          by (simp add: Let_def)
        from Cons.IH[OF this Cons.prems(2)] show ?thesis
          using act True inf by auto
      qed
    qed
  qed
qed

lemma epic_elements_loop_sound:
  "epic_elements_loop R elements games = (games', r) \<Longrightarrow> info \<in> set games' \<Longrightarrow>
   info \<in> set games \<or>
   (\<exists>game \<in> set elements. \<exists>offer. has_active_offer game offer \<and>
      get_epic_original_price game \<noteq> ''Free'' \<and>
      epic_game_info R game offer (get_epic_original_price game) = Inr info)"
proof (induction elements arbitrary: games)
  case Nil
  then show ?case by simp
next
  case (Cons game elements)
  let ?P = "\<lambda>g. \<exists>offer. has_active_offer g offer \<and> get_epic_original_price g \<noteq> ''Free'' \<and>
      epic_game_info R g offer (get_epic_original_price g) = Inr info"
  have skip: "epic_elements_loop R elements games = (games', r) \<Longrightarrow> ?case"
    using Cons.IH[OF _ Cons.prems(2), of games] by auto
  show ?case
  proof (cases "py_get game ''promotions'' PyNone")
    case (Inl e)
    with Cons.prems show ?thesis by simp
  next
    case pr: (Inr promotions)
    show ?thesis
    proof (cases "truthy promotions")
      case False
      with Cons.prems pr show ?thesis by (intro skip) simp
    next
      case tp: True
      show ?thesis
      proof (cases "py_get promotions ''promotionalOffers'' PyNone")
        case (Inl e)
        with Cons.prems pr tp show ?thesis by simp
      next
        case cu: (Inr current)
        show ?thesis
        proof (cases "truthy current")
          case False
          with Cons.prems pr tp cu show ?thesis by (intro skip) simp
        next
          case tc: True
          show ?thesis
          proof (cases "bind_exn (py_getitem promotions ''promotionalOffers'') py_iter")
            case (Inl e)
            with Cons.prems pr tp cu tc show ?thesis by simp
          next
            case it: (Inr offers)
            then obtain v where v: "py_getitem promotions ''promotionalOffers'' = Inr v"
              "py_iter v = Inr offers"
              by (auto simp: bind_exn_def split: sum.splits)
            from py_getitem_get[OF v(1)] v(2)
            have pe: "promotional_entries game = offers"
              by (simp add: promotional_entries_def pr tp bind_exn_def)
            obtain g1 r1 where l: "epic_offers_loop R game offers games = (g1, r1)"
              by (cases "epic_offers_loop R game offers games")
            have inner: "info \<in> set g1 \<Longrightarrow> info \<in> set games \<or> ?P game"
              using epic_offers_loop_sound[OF l] pe by (auto simp: has_active_offer_def)
            show ?thesis
            proof (cases r1)
              case (Some e)
              with Cons.prems pr tp cu tc it l have "games' = g1" by simp
              with inner Cons.prems(2) show ?thesis by auto
            next
              case None
              with Cons.prems pr tp cu tc it l
              have "epic_elements_loop R elements g1 = (games', r)" by simp
              from Cons.IH[OF this Cons.prems(2)] inner show ?thesis by auto
            qed
          qed
        qed
      qed
    qed
  qed
qed

lemma epic_offers_loop_complete:
  "epic_offers_loop R game offers games = (games', None) \<Longrightarrow>
   set games \<subseteq> set games' \<and>
   (\<forall>offer \<in> set offers. is_active offer \<and> get_epic_original_price game \<noteq> ''Free'' \<longrightarrow>
      (\<exists>info \<in> set games'. epic_game_info R game offer (get_epic_original_price game) = Inr info))"
proof (induction offers arbitrary: games)
  case Nil
  then show ?case by simp
next
  case (Cons offer offers)
  from Cons.prems obtain active where a: "py_get offer ''promotionalOffers'' PyNone = Inr active"
    by (cases "py_get offer ''promotionalOffers'' PyNone") auto
  show ?case
  proof (cases "truthy active \<and> get_epic_original_price game \<noteq> ''Free''")
    case False
    with Cons.prems a have "epic_offers_loop R game offers games = (games', None)"
      by (auto simp: Let_def split: if_splits)
    from Cons.IH[OF this] False a show ?thesis by (auto simp: is_active_def)
  next
    case True
    with Cons.prems a obtain game_info where
      i: "epic_game_info R game offer (get_epic_original_price game) = Inr game_info"
      by (cases "epic_game_info R game offer (get_epic_original_price game)") (auto simp: Let_def)
    with Cons.prems a True
    have "epic_offers_loop R game offers (games @ [game_info]) = (games', None)"
      by (simp add: Let_def)
    from Cons.IH[OF this] i show ?thesis by auto
  qed
qed

lemma epic_elements_loop_complete:
  "epic_elements_loop R elements games = (games', None) \<Longrightarrow>
   set games \<subseteq> set games' \<and>
   (\<forall>game \<in> set elements. \<forall>offer.
      has_active_offer game offer \<and> get_epic_original_price game \<noteq> ''Free'' \<longrightarrow>
      (\<exists>info \<in> set games'. epic_game_info R game offer (get_epic_original_price game) = Inr info))"
proof (induction elements arbitrary: games)
  case Nil
  then show ?case by simp
next
  case (Cons game elements)
  from Cons.prems obtain promotions where pr: "py_get game ''promotions'' PyNone = Inr promotions"
    by (cases "py_get game ''promotions'' PyNone") auto
  have none: "promotional_entries game = [] \<Longrightarrow>
      epic_elements_loop R elements games = (games', None) \<Longrightarrow> ?case"
    using Cons.IH[of games] by (auto simp: has_active_offer_def)
  show ?case
  proof (cases "truthy promotions")
    case False
    with Cons.prems pr show ?thesis
      by (intro none) (simp_all add: promotional_entries_def)
  next
    case tp: True
    with Cons.prems pr obtain current where
      cu: "py_get promotions ''promotionalOffers'' PyNone = Inr current"
      by (cases "py_get promotions ''promotionalOffers'' PyNone") auto
    show ?thesis
    proof (cases "truthy current")
      case False
      have "promotional_entries game = []"
      proof (cases "py_iter current")
        case (Inl e)
        then show ?thesis by (simp add: promotional_entries_def pr tp cu bind_exn_def)
      next
        case (Inr xs)
        with py_iter_truthy[OF Inr] False have "xs = []" by auto
        with Inr show ?thesis by (simp add: promotional_entries_def pr tp cu bind_exn_def)
      qed
      with Cons.prems pr tp cu False show ?thesis by (intro none) simp_all
    next
      case tc: True
      with Cons.prems pr tp cu obtain offers where
        it: "bind_exn (py_getitem promotions ''promotionalOffers'') py_iter = Inr offers"
        by (cases "bind_exn (py_getitem promotions ''promotionalOffers'') py_iter") auto
      then obtain v where v: "py_getitem promotions ''promotionalOffers'' = Inr v"
        "py_iter v = Inr offers"
        by (auto simp: bind_exn_def split: sum.splits)
      from py_getitem_get[OF v(1)] v(2)
      have pe: "promotional_entries game = offers"
        by (simp add: promotional_entries_def pr tp bind_exn_def)
      obtain g1 r1 where l: "epic_offers_loop R game offers games = (g1, r1)"
        by (cases "epic_offers_loop R game offers games")
      with Cons.prems pr tp cu tc it have r1: "r1 = None"
        by (cases r1) auto
      with Cons.prems pr tp cu tc it l
      have rest: "epic_elements_loop R elements g1 = (games', None)" by simp
      from epic_offers_loop_complete[OF l[unfolded r1]] Cons.IH[OF rest] pe
      show ?thesis by (auto simp: has_active_offer_def) blast+
    qed
  qed
qed

section \<open>Claims about the adapters\<close>

text \<open>
  Claim C3, as amended. Whatever fails with an \<^verbatim>\<open>Exception\<close> (the transport, the
  decoding, the shape of the document), an adapter returns normally: it logs the
  exception and returns the offers it had built before the failure, which are none
  when the fetch itself fails and none in all cases for the Microsoft Store. No error
  is part of the value returned.
\<close>

theorem adapters_return_normally:
  "((\<forall>e. response = Inl e \<longrightarrow> is_Exception e) \<longrightarrow>
      (\<exists>out. scrape_epic_games R response = Inr out \<and>
         returned out = fst (epic_body R response) \<and>
         error_logged out = snd (epic_body R response) \<and>
         (\<forall>e. response = Inl e \<longrightarrow> returned out = [] \<and> error_logged out = Some e)) \<and>
      (\<exists>out. scrape_steam_weekend_deals R response = Inr out \<and>
         returned out = fst (steam_body R response) \<and>
         error_logged out = snd (steam_body R response) \<and>
         (\<forall>e. response = Inl e \<longrightarrow> returned out = [] \<and> error_logged out = Some e))) \<and>
   ((\<forall>e. page = Inl e \<longrightarrow> is_Exception e) \<longrightarrow>
      (\<exists>out. scrape_microsoft_store page = Inr out \<and> returned out = [] \<and>
         (\<forall>e. page = Inl e \<longrightarrow> error_logged out = Some e))) \<and>
   ((\<forall>e. snd body_run = Some e \<longrightarrow> is_Exception e) \<longrightarrow>
      scrape_html_page body_run =
        Inr \<lparr>returned = fst body_run, error_logged = snd body_run\<rparr>)"
proof (intro conjI impI)
  assume h: "\<forall>e. response = Inl e \<longrightarrow> is_Exception e"
  have "scrape_epic_games R response =
      Inr \<lparr>returned = fst (epic_body R response), error_logged = snd (epic_body R response)\<rparr>"
    unfolding scrape_epic_games_def by (rule adapter_boundary_safe[OF safe_epic_body[OF h]])
  moreover have "\<forall>e. response = Inl e \<longrightarrow> epic_body R response = ([], Some e)"
    by (simp add: epic_body_def bind_exn_def)
  ultimately show "\<exists>out. scrape_epic_games R response = Inr out \<and>
         returned out = fst (epic_body R response) \<and>
         error_logged out = snd (epic_body R response) \<and>
         (\<forall>e. response = Inl e \<longrightarrow> returned out = [] \<and> error_logged out = Some e)"
    by auto
  have "scrape_steam_weekend_deals R response =
      Inr \<lparr>returned = fst (steam_body R response), error_logged = snd (steam_body R response)\<rparr>"
    unfolding scrape_steam_weekend_deals_def
    by (rule adapter_boundary_safe[OF safe_steam_body[OF h]])
  moreover have "\<forall>e. response = Inl e \<longrightarrow> steam_body R response = ([], Some e)"
    by (simp add: steam_body_def bind_exn_def)
  ultimately show "\<exists>out. scrape_steam_weekend_deals R response = Inr out \<and>
         returned out = fst (steam_body R response) \<and>
         error_logged out = snd (steam_body R response) \<and>
         (\<forall>e. response = Inl e \<longrightarrow> returned out = [] \<and> error_logged out = Some e)"
    by auto
next
  assume "\<forall>e. page = Inl e \<longrightarrow> is_Exception e"
  then show "\<exists>out. scrape_microsoft_store page = Inr out \<and> returned out = [] \<and>
         (\<forall>e. page = Inl e \<longrightarrow> error_logged out = Some e)"
    by (cases page) (simp_all add: scrape_microsoft_store_def adapter_boundary_def)
next
  assume "\<forall>e. snd body_run = Some e \<longrightarrow> is_Exception e"
  then have "safe_run body_run"
    by (simp add: safe_run_def split: option.splits)
  then show "scrape_html_page body_run =
        Inr \<lparr>returned = fst body_run, error_logged = snd body_run\<rparr>"
    unfolding scrape_html_page_def by (rule adapter_boundary_safe)
qed

theorem adapters_return_normally_witness:
  "(\<exists>out. scrape_epic_games no_repr (Inl RequestException) = Inr out \<and> returned out = [] \<and>
      error_logged out = Some RequestException) \<and>
   (\<exists>out. scrape_steam_weekend_deals no_repr (Inl RequestException) = Inr out \<and>
      returned out = [] \<and> error_logged out = Some RequestException) \<and>
   (\<exists>out. scrape_microsoft_store (Inl JSONDecodeError :: exn + unit) = Inr out \<and>
      returned out = [] \<and> error_logged out = Some JSONDecodeError) \<and>
   scrape_html_page ([[(''title'', PyStr ''Game A'')]], Some AttributeError) =
     Inr \<lparr>returned = [[(''title'', PyStr ''Game A'')]], error_logged = Some AttributeError\<rparr>"
proof -
  have a: "\<forall>e. (Inl RequestException :: exn + pyval) = Inl e \<longrightarrow> is_Exception e"
    by (simp add: is_Exception_def)
  have b: "\<forall>e. (Inl JSONDecodeError :: exn + unit) = Inl e \<longrightarrow> is_Exception e"
    by (simp add: is_Exception_def)
  have c: "\<forall>e. snd ([[(''title'', PyStr ''Game A'')]], Some AttributeError) = Some e \<longrightarrow>
      is_Exception e"
    by (simp add: is_Exception_def)
  note t = adapters_return_normally[of "Inl RequestException" no_repr
      "Inl JSONDecodeError :: exn + unit"
      "([[(''title'', PyStr ''Game A'')]], Some AttributeError)"]
  from t a obtain o1 o2 where
    "scrape_epic_games no_repr (Inl RequestException) = Inr o1"
    "\<forall>e. (Inl RequestException :: exn + pyval) = Inl e \<longrightarrow>
        returned o1 = [] \<and> error_logged o1 = Some e"
    "scrape_steam_weekend_deals no_repr (Inl RequestException) = Inr o2"
    "\<forall>e. (Inl RequestException :: exn + pyval) = Inl e \<longrightarrow>
        returned o2 = [] \<and> error_logged o2 = Some e"
    by blast
  then have e: "\<exists>out. scrape_epic_games no_repr (Inl RequestException) = Inr out \<and>
      returned out = [] \<and> error_logged out = Some RequestException"
    and s: "\<exists>out. scrape_steam_weekend_deals no_repr (Inl RequestException) = Inr out \<and>
      returned out = [] \<and> error_logged out = Some RequestException"
    by simp_all
  from t b obtain o3 where
    "scrape_microsoft_store (Inl JSONDecodeError :: exn + unit) = Inr o3" "returned o3 = []"
    "\<forall>e. (Inl JSONDecodeError :: exn + unit) = Inl e \<longrightarrow> error_logged o3 = Some e"
    by blast
  then have m: "\<exists>out. scrape_microsoft_store (Inl JSONDecodeError :: exn + unit) = Inr out \<and>
      returned out = [] \<and> error_logged out = Some JSONDecodeError"
    by simp
  from t c have h: "scrape_html_page ([[(''title'', PyStr ''Game A'')]], Some AttributeError) =
     Inr \<lparr>returned = [[(''title'', PyStr ''Game A'')]], error_logged = Some AttributeError\<rparr>"
    by simp
  from e s m h show ?thesis by blast
qed

text \<open>
  The counterexample to claim C3 as stated: the second catalog element is a number,
  so \<^verbatim>\<open>game.get\<close> raises \<^verbatim>\<open>AttributeError\<close> after the first element has given an
  offer; the adapter returns that offer, not an empty sequence, and the third
  element is never read.
\<close>

theorem epic_parse_failure_returns_offers:
  "scrape_epic_games no_repr
     (Inr (epic_document [epic_element ''Paid Game'' 2999, PyInt 5, epic_element ''Other'' 999])) =
   Inr \<lparr>returned = [epic_offer ''Paid Game'' ''$29.99''], error_logged = Some AttributeError\<rparr>"
  by code_simp

lemma format_2999: "format_dollars 2999 = Inr ''$29.99''"
  by code_simp

text \<open>
  Claim C4, as amended. The Epic adapter emits an offer for a catalog element only
  if the element has an active promotional offer entry and, when its price subfields
  hold an integer \<^verbatim>\<open>originalPrice\<close>, only if that price is positive. An element whose
  \<^verbatim>\<open>originalPrice\<close> is 0 (or negative) has the price text \<^verbatim>\<open>"Free"\<close> and is excluded
  even when a promotional offer exists: the loop over its entries adds nothing. When
  the adapter reads the whole catalog without an error, an element with a positive
  \<^verbatim>\<open>originalPrice\<close> and an active promotional offer entry is included, with the amount
  in dollars as its \<^verbatim>\<open>original_price\<close>: \<^verbatim>\<open>"$29.99"\<close> for 2999. An error ends the loop, so
  that the elements after it are not read.
\<close>

theorem epic_filter_by_price:
  "(scrape_epic_games R response = Inr out \<and> info \<in> set (returned out) \<longrightarrow>
      (\<exists>data elements game offer.
         response = Inr data \<and> epic_elements data = Inr (Some elements) \<and>
         game \<in> set elements \<and> has_active_offer game offer \<and>
         (\<forall>n. original_price_cents game = Some n \<longrightarrow> 0 < n) \<and>
         epic_game_info R game offer (get_epic_original_price game) = Inr info \<and>
         map_of info ''original_price'' = Some (PyStr (get_epic_original_price game)))) \<and>
   (original_price_cents game = Some n \<and> n \<le> 0 \<longrightarrow>
      get_epic_original_price game = ''Free'' \<and>
      fst (epic_offers_loop R game offers games) = games) \<and>
   (epic_elements data = Inr (Some elements) \<and> scrape_epic_games R (Inr data) = Inr out \<and>
    error_logged out = None \<and> game \<in> set elements \<and> has_active_offer game offer \<and>
    original_price_cents game = Some n \<and> 0 < n \<and> format_dollars n = Inr s \<longrightarrow>
      (\<exists>info \<in> set (returned out).
         epic_game_info R game offer s = Inr info \<and>
         map_of info ''original_price'' = Some (PyStr s))) \<and>
   format_dollars 2999 = Inr ''$29.99''"
proof (intro conjI impI)
  assume h: "scrape_epic_games R response = Inr out \<and> info \<in> set (returned out)"
  then have i: "info \<in> set (fst (epic_body R response))"
    by (auto simp: scrape_epic_games_def adapter_boundary_def split: option.splits if_splits)
  then obtain data where d: "response = Inr data"
    by (cases response) (auto simp: epic_body_def bind_exn_def)
  from i d obtain elements where e: "epic_elements data = Inr (Some elements)"
    by (cases "epic_elements data") (auto simp: epic_body_def bind_exn_def split: option.splits)
  obtain games r where l: "epic_elements_loop R elements [] = (games, r)"
    by (cases "epic_elements_loop R elements []")
  with i d e have "info \<in> set games" by (simp add: epic_body_def bind_exn_def)
  from epic_elements_loop_sound[OF l this] obtain game offer where
    g: "game \<in> set elements" "has_active_offer game offer"
       "get_epic_original_price game \<noteq> ''Free''"
       "epic_game_info R game offer (get_epic_original_price game) = Inr info"
    by auto
  from g(3) have p: "\<forall>n. original_price_cents game = Some n \<longrightarrow> 0 < n"
    using epic_price_positive by blast
  from epic_game_info_price[OF g(4)] d e g p
  show "\<exists>data elements game offer.
         response = Inr data \<and> epic_elements data = Inr (Some elements) \<and>
         game \<in> set elements \<and> has_active_offer game offer \<and>
         (\<forall>n. original_price_cents game = Some n \<longrightarrow> 0 < n) \<and>
         epic_game_info R game offer (get_epic_original_price game) = Inr info \<and>
         map_of info ''original_price'' = Some (PyStr (get_epic_original_price game))"
    by blast
next
  assume h: "original_price_cents game = Some n \<and> n \<le> 0"
  with epic_price_known[of game n] show "get_epic_original_price game = ''Free''"
    by simp
next
  assume h: "original_price_cents game = Some n \<and> n \<le> 0"
  with epic_price_known[of game n] have "get_epic_original_price game = ''Free''"
    by simp
  then show "fst (epic_offers_loop R game offers games) = games"
    by (rule epic_offers_loop_free)
next
  assume h: "epic_elements data = Inr (Some elements) \<and> scrape_epic_games R (Inr data) = Inr out \<and>
    error_logged out = None \<and> game \<in> set elements \<and> has_active_offer game offer \<and>
    original_price_cents game = Some n \<and> 0 < n \<and> format_dollars n = Inr s"
  with epic_price_known[of game n] have t: "get_epic_original_price game = s"
    by simp
  from h have nf: "s \<noteq> ''Free''"
    using format_dollars_not_Free by blast
  obtain games r where l: "epic_elements_loop R elements [] = (games, r)"
    by (cases "epic_elements_loop R elements []")
  with h have b: "epic_body R (Inr data) = (games, r)"
    by (simp add: epic_body_def bind_exn_def)
  with h have "r = None" "returned out = games"
    by (auto simp: scrape_epic_games_def adapter_boundary_def split: option.splits if_splits)
  with epic_elements_loop_complete[of R elements "[]" games] l h t nf
  obtain info where i: "info \<in> set (returned out)" "epic_game_info R game offer s = Inr info"
    by auto
  from epic_game_info_price[OF i(2)] i
  show "\<exists>info \<in> set (returned out).
         epic_game_info R game offer s = Inr info \<and>
         map_of info ''original_price'' = Some (PyStr s)"
    by blast
next
  show "format_dollars 2999 = Inr ''$29.99''" by (rule format_2999)
qed

theorem epic_filter_by_price_witness:
  "scrape_epic_games no_repr
     (Inr (epic_document [epic_element ''Paid Game'' 2999, epic_element ''Gift'' 0])) =
     Inr \<lparr>returned = [epic_offer ''Paid Game'' ''$29.99''], error_logged = None\<rparr> \<and>
   (\<exists>info \<in> set [epic_offer ''Paid Game'' ''$29.99''].
      epic_game_info no_repr (epic_element ''Paid Game'' 2999) active_entry ''$29.99'' = Inr info \<and>
      map_of info ''original_price'' = Some (PyStr ''$29.99'')) \<and>
   get_epic_original_price (epic_element ''Gift'' 0) = ''Free'' \<and>
   fst (epic_offers_loop no_repr (epic_element ''Gift'' 0) [active_entry] []) = []"
proof -
  let ?paid = "epic_element ''Paid Game'' 2999" and ?gift = "epic_element ''Gift'' 0"
  let ?doc = "epic_document [?paid, ?gift]"
  let ?out = "\<lparr>returned = [epic_offer ''Paid Game'' ''$29.99''], error_logged = None\<rparr>"
  have run: "scrape_epic_games no_repr (Inr ?doc) = Inr ?out"
    by code_simp
  have els: "epic_elements ?doc = Inr (Some [?paid, ?gift])"
    by code_simp
  have act: "has_active_offer ?paid active_entry"
    by code_simp
  have cp: "original_price_cents ?paid = Some 2999"
    by code_simp
  have cg: "original_price_cents ?gift = Some 0"
    by code_simp
  note t = epic_filter_by_price[of no_repr _ ?out _ ?gift 0 "[active_entry]" "[]"]
  note u = epic_filter_by_price[of no_repr _ ?out _ ?paid 2999 _ _ ?doc "[?paid, ?gift]"
      active_entry "''$29.99''"]
  from t cg have a: "get_epic_original_price ?gift = ''Free''"
    and b: "fst (epic_offers_loop no_repr ?gift [active_entry] []) = []"
    by simp_all
  from u have f: "format_dollars 2999 = Inr ''$29.99''"
    by blast
  from u run els act cp f
  have c: "\<exists>info \<in> set [epic_offer ''Paid Game'' ''$29.99''].
      epic_game_info no_repr ?paid active_entry ''$29.99'' = Inr info \<and>
      map_of info ''original_price'' = Some (PyStr ''$29.99'')"
    by simp
  from run a b c show ?thesis by blast
qed

text \<open>
  The counterexample to claim C4 as stated: the first catalog element is \<^verbatim>\<open>null\<close>, so
  \<^verbatim>\<open>game.get\<close> raises \<^verbatim>\<open>AttributeError\<close> and the loop ends. The second element has the
  original price 2999 and an active promotional offer entry, and is not included.
\<close>

theorem epic_error_hides_later_elements:
  "scrape_epic_games no_repr
     (Inr (epic_document [PyNone, epic_element ''Paid Game'' 2999])) =
     Inr \<lparr>returned = [], error_logged = Some AttributeError\<rparr> \<and>
   has_active_offer (epic_element ''Paid Game'' 2999) active_entry \<and>
   original_price_cents (epic_element ''Paid Game'' 2999) = Some 2999"
  by code_simp

text \<open>
  An element whose price cannot be read is outside of the claim as amended. It has
  the price text \<^verbatim>\<open>"Unknown"\<close>, which is not \<^verbatim>\<open>"Free"\<close>, and is emitted, although the
  comment on the test says \<^verbatim>\<open>Only games that were originally paid\<close>.
\<close>

lemma epic_offer_without_price:
  "scrape_epic_games no_repr
     (Inr (epic_document [epic_element_without_price ''Mystery Game''])) =
   Inr \<lparr>returned = [epic_offer ''Mystery Game'' ''Unknown''], error_logged = None\<rparr>"
  by code_simp

text \<open>
  Claim C5, as amended. The Steam adapter includes an item of the \<^verbatim>\<open>specials\<close>
  collection if and only if \<^verbatim>\<open>final_price == 0\<close>, \<^verbatim>\<open>original_price > 0\<close> and
  \<^verbatim>\<open>discount_percent == 100\<close> hold of it and the loop reaches it, which it does when no
  item before it raises an error. The first item that raises one (an item that is not
  an object, a final price of 0 with an \<^verbatim>\<open>original_price\<close> that is not a number, an
  original price too large for a float) ends the loop: the adapter returns the offers
  of the items that satisfy the condition before it, in their order, and logs the
  error. An included item whose original price is 1999 has the \<^verbatim>\<open>original_price\<close>
  \<^verbatim>\<open>"$19.99"\<close>; an item whose final price is 500 raises no error and is excluded.
\<close>

theorem steam_filter_until_error:
  assumes "steam_items data = Inr (Some items)"
  shows "\<exists>out. scrape_steam_weekend_deals R (Inr data) = Inr out \<and>
           map Inr (returned out) =
             map (steam_game_info R) (filter steam_condition (steam_reached items)) \<and>
           error_logged out = steam_first_error items \<and>
           (\<forall>kvs. PyDict kvs \<in> set (steam_reached items) \<and> steam_condition (PyDict kvs) \<and>
                  map_of kvs ''original_price'' = Some (PyInt 1999) \<longrightarrow>
                  (\<exists>info \<in> set (returned out).
                     steam_game_info R (PyDict kvs) = Inr info \<and>
                     map_of info ''original_price'' = Some (PyStr ''$19.99''))) \<and>
           (\<forall>kvs. map_of kvs ''final_price'' = Some (PyInt 500) \<longrightarrow>
                  \<not> steam_condition (PyDict kvs) \<and> steam_error (PyDict kvs) = None)"
proof -
  from steam_items_loop_reached[of R items "[]"] obtain games where
    l: "steam_items_loop R items [] = (games, steam_first_error items)" and
    m: "map Inr games = map (steam_game_info R) (filter steam_condition (steam_reached items))"
    by auto
  let ?out = "\<lparr>returned = games, error_logged = steam_first_error items\<rparr>"
  have b: "steam_body R (Inr data) = (games, steam_first_error items)"
    by (simp add: steam_body_def bind_exn_def assms l)
  have "safe_run (steam_body R (Inr data))"
    by (rule safe_steam_body) simp
  from adapter_boundary_safe[OF this]
  have r: "scrape_steam_weekend_deals R (Inr data) = Inr ?out"
    by (simp add: scrape_steam_weekend_deals_def b)
  have p: "\<forall>kvs. PyDict kvs \<in> set (steam_reached items) \<and> steam_condition (PyDict kvs) \<and>
                  map_of kvs ''original_price'' = Some (PyInt 1999) \<longrightarrow>
                  (\<exists>info \<in> set games.
                     steam_game_info R (PyDict kvs) = Inr info \<and>
                     map_of info ''original_price'' = Some (PyStr ''$19.99''))"
  proof (intro allI impI)
    fix kvs
    assume h: "PyDict kvs \<in> set (steam_reached items) \<and> steam_condition (PyDict kvs) \<and>
                  map_of kvs ''original_price'' = Some (PyInt 1999)"
    then have "steam_game_info R (PyDict kvs) \<in>
        set (map (steam_game_info R) (filter steam_condition (steam_reached items)))"
      by simp
    with m have "steam_game_info R (PyDict kvs) \<in> set (map Inr games)" by simp
    then obtain info where i: "info \<in> set games" "steam_game_info R (PyDict kvs) = Inr info"
      by auto
    from steam_price_text[OF i(2) _ format_1999] h
    have "map_of info ''original_price'' = Some (PyStr ''$19.99'')"
      by simp
    with i show "\<exists>info \<in> set games.
                     steam_game_info R (PyDict kvs) = Inr info \<and>
                     map_of info ''original_price'' = Some (PyStr ''$19.99'')"
      by blast
  qed
  have q: "\<forall>kvs. map_of kvs ''final_price'' = Some (PyInt 500) \<longrightarrow>
      \<not> steam_condition (PyDict kvs) \<and> steam_error (PyDict kvs) = None"
    by (simp add: steam_condition_def steam_error_def offer_get_def)
  show ?thesis
    by (rule exI[of _ ?out]) (use r m p q in simp)
qed

theorem steam_filter_until_error_witness:
  "\<exists>out. scrape_steam_weekend_deals no_repr
      (Inr (steam_document
         [steam_special ''Game A'' 0 1999 100, steam_special ''Game B'' 500 1999 75,
          PyDict [(''final_price'', PyInt 0), (''original_price'', PyNone)],
          steam_special ''Game C'' 0 999 100])) = Inr out \<and>
     map Inr (returned out) = [steam_game_info no_repr (steam_special ''Game A'' 0 1999 100)] \<and>
     error_logged out = Some TypeError \<and>
     (\<exists>info \<in> set (returned out). map_of info ''original_price'' = Some (PyStr ''$19.99''))"
proof -
  let ?a = "steam_special ''Game A'' 0 1999 100" and ?b = "steam_special ''Game B'' 500 1999 75"
  let ?x = "PyDict [(''final_price'', PyInt 0), (''original_price'', PyNone)]"
  let ?c = "steam_special ''Game C'' 0 999 100"
  have h1: "steam_items (steam_document [?a, ?b, ?x, ?c]) = Inr (Some [?a, ?b, ?x, ?c])"
    by code_simp
  have re: "steam_reached [?a, ?b, ?x, ?c] = [?a, ?b]"
    by code_simp
  have fe: "steam_first_error [?a, ?b, ?x, ?c] = Some TypeError"
    by code_simp
  have f: "filter steam_condition [?a, ?b] = [?a]"
    by (simp add: steam_condition_def steam_special_def offer_get_def)
  have k: "?a = PyDict [(''id'', PyInt 440), (''name'', PyStr ''Game A''), (''final_price'', PyInt 0),
             (''original_price'', PyInt 1999), (''discount_percent'', PyInt 100)]"
    by (simp add: steam_special_def)
  from f have c: "steam_condition ?a"
    by (metis filter_eq_ConsD)
  from steam_filter_until_error[OF h1, of no_repr] obtain out where
    o: "scrape_steam_weekend_deals no_repr (Inr (steam_document [?a, ?b, ?x, ?c])) = Inr out"
       "map Inr (returned out) =
          map (steam_game_info no_repr) (filter steam_condition (steam_reached [?a, ?b, ?x, ?c]))"
       "error_logged out = steam_first_error [?a, ?b, ?x, ?c]"
       "\<forall>kvs. PyDict kvs \<in> set (steam_reached [?a, ?b, ?x, ?c]) \<and> steam_condition (PyDict kvs) \<and>
                  map_of kvs ''original_price'' = Some (PyInt 1999) \<longrightarrow>
                  (\<exists>info \<in> set (returned out).
                     steam_game_info no_repr (PyDict kvs) = Inr info \<and>
                     map_of info ''original_price'' = Some (PyStr ''$19.99''))"
    by blast
  from o(4)[rule_format, of "[(''id'', PyInt 440), (''name'', PyStr ''Game A''), (''final_price'', PyInt 0),
             (''original_price'', PyInt 1999), (''discount_percent'', PyInt 100)]"] c k re
  have "\<exists>info \<in> set (returned out). map_of info ''original_price'' = Some (PyStr ''$19.99'')"
    by auto
  with o(1,2,3) re fe f show ?thesis by auto
qed

text \<open>
  The counterexample to claim C5 as stated: the first item has the final price 0 and
  the original price \<^verbatim>\<open>null\<close>, so the comparison with 0 raises \<^verbatim>\<open>TypeError\<close> and the loop
  ends. The second item satisfies the condition and is not included.
\<close>

theorem steam_error_hides_later_items:
  "scrape_steam_weekend_deals no_repr
     (Inr (steam_document
        [PyDict [(''final_price'', PyInt 0), (''original_price'', PyNone)],
         steam_special ''Game A'' 0 1999 100])) =
     Inr \<lparr>returned = [], error_logged = Some TypeError\<rparr> \<and>
   steam_condition (steam_special ''Game A'' 0 1999 100)"
  by code_simp

section \<open>The sinks and the entry point\<close>

lemma length_csv_rows [simp]: "length (csv_rows ev games k) = length games"
  by (induction games arbitrary: k) auto

lemma nth_csv_rows:
  "i < length games \<Longrightarrow> csv_rows ev games k ! i = csv_row ev (games ! i) (k + i)"
proof (induction games arbitrary: k i)
  case Nil
  then show ?case by simp
next
  case (Cons g games)
  then show ?case by (cases i) auto
qed

lemma csv_row_cells:
  "csv_row ev game k =
     map (\<lambda>field. offer_get game field (PyStr []))
       [''title'', ''platform'', ''original_price'', ''current_price'', ''url'',
        ''end_date'', ''description'', ''type''] @ [PyStr (now ev k)]"
  by (simp add: csv_row_def fieldnames_def)

lemma dedupe_from_titles:
  "dedupe_from gs u = Inr r \<Longrightarrow> g \<in> set r \<Longrightarrow>
   g \<in> set u \<or> (\<exists>t. title_lower_of g = Inr t)"
proof (induction gs arbitrary: u)
  case Nil
  then show ?case by simp
next
  case (Cons a gs)
  from Cons.prems obtain t where t: "title_lower_of a = Inr t"
    by (cases "title_lower_of a") auto
  from Cons.prems t have "dedupe_from gs u = Inr r \<or> dedupe_from gs (u @ [a]) = Inr r"
    by (auto split: if_splits)
  then show ?case
  proof
    assume "dedupe_from gs u = Inr r"
    from Cons.IH[OF this Cons.prems(2)] show ?thesis .
  next
    assume "dedupe_from gs (u @ [a]) = Inr r"
    from Cons.IH[OF this Cons.prems(2)] t show ?thesis by auto
  qed
qed

lemma title_lower_of_title: "title_lower_of g = Inr t \<Longrightarrow> map_of g ''title'' \<noteq> None"
  by (auto simp: title_lower_of_def split: option.splits)

lemma scraped_offers_have_titles:
  assumes "scrape_all_platforms_threaded cs = Inr games" "g \<in> set games"
  shows "map_of g ''title'' \<noteq> None"
proof -
  from assms(1) obtain all_games where "remove_duplicates all_games = Inr games"
    by (auto simp: scrape_all_platforms_threaded_def bind_exn_def split: sum.splits)
  then have "dedupe_from all_games [] = Inr games"
    by (simp add: remove_duplicates_dedupe_from)
  from dedupe_from_titles[OF this assms(2)] show ?thesis
    by (auto dest: title_lower_of_title)
qed

lemma group_add_members:
  "g \<in> set (snd grp) \<Longrightarrow> grp \<in> set (group_add p game groups) \<Longrightarrow>
   g = game \<or> (\<exists>grp' \<in> set groups. g \<in> set (snd grp'))"
  by (induction groups) (auto split: if_splits)

lemma group_by_platform_members:
  "group_by_platform games groups = Inr ps \<Longrightarrow> grp \<in> set ps \<Longrightarrow> g \<in> set (snd grp) \<Longrightarrow>
   g \<in> set games \<or> (\<exists>grp' \<in> set groups. g \<in> set (snd grp'))"
proof (induction games arbitrary: groups)
  case Nil
  then show ?case by auto
next
  case (Cons a games)
  from Cons.prems(1) have h: "hashable (platform_of a)"
    and r: "group_by_platform games (group_add (platform_of a) a groups) = Inr ps"
    by (auto split: if_splits)
  from Cons.IH[OF r Cons.prems(2,3)] show ?case
    using group_add_members by fastforce
qed

lemma group_by_platform_defined:
  "\<forall>g \<in> set games. hashable (platform_of g) \<Longrightarrow> \<exists>ps. group_by_platform games groups = Inr ps"
  by (induction games arbitrary: groups) auto

lemma print_summary_defined:
  assumes "\<forall>g \<in> set games. hashable (platform_of g)"
    and "\<forall>g \<in> set games. map_of g ''title'' \<noteq> None"
  shows "\<exists>summary. print_summary games = Inr summary \<and>
           (games = [] \<longrightarrow> summary = [No_free_games_found])"
proof (cases "games = []")
  case True
  then show ?thesis by (simp add: print_summary_def)
next
  case False
  from group_by_platform_defined[OF assms(1), of "[]"] obtain ps where
    ps: "group_by_platform games [] = Inr ps" ..
  have "\<not> (\<exists>group \<in> set ps. \<exists>game \<in> set (take 5 (snd group)). map_of game ''title'' = None)"
  proof
    assume "\<exists>group \<in> set ps. \<exists>game \<in> set (take 5 (snd group)). map_of game ''title'' = None"
    then obtain grp g where g: "grp \<in> set ps" "g \<in> set (take 5 (snd grp))"
      "map_of g ''title'' = None" by blast
    from g(2) have "g \<in> set (snd grp)" by (rule in_set_takeD)
    from group_by_platform_members[OF ps g(1) this] have "g \<in> set games" by simp
    with assms(2) g(3) show False by blast
  qed
  with ps False show ?thesis by (simp add: print_summary_def bind_exn_def)
qed

section \<open>Claims about the sinks and the entry point\<close>

text \<open>
  Claim C9, as amended. For a list of offers that is not empty, the CSV sink writes
  the header row \<^verbatim>\<open>title,platform,original_price,current_price,url,end_date,
  description,type,scraped_at\<close> and one row per offer, in the order of the offers. A
  row has the value of each of the first eight fields, the empty string for a field
  that the offer lacks, and as \<^verbatim>\<open>scraped_at\<close> the time read when the row is written;
  other fields of the offer are not in the row. For an empty list the sink writes
  nothing and leaves the files as they are.
\<close>

theorem csv_sink:
  "(free_games \<noteq> [] \<and> can_open ev filename \<longrightarrow>
      (\<exists>rows. files (save_to_csv ev free_games filename w) filename =
           Some (Csv_file [''title'', ''platform'', ''original_price'', ''current_price'',
                           ''url'', ''end_date'', ''description'', ''type'', ''scraped_at''] rows) \<and>
         length rows = length free_games \<and>
         (\<forall>i < length free_games.
            rows ! i =
              map (\<lambda>field. case map_of (free_games ! i) field of
                              None \<Rightarrow> PyStr [] | Some v \<Rightarrow> v)
                [''title'', ''platform'', ''original_price'', ''current_price'', ''url'',
                 ''end_date'', ''description'', ''type''] @
              [PyStr (now ev (clock w + i))]))) \<and>
   save_to_csv ev [] filename w = w"
proof (intro conjI impI)
  assume h: "free_games \<noteq> [] \<and> can_open ev filename"
  let ?rows = "csv_rows ev free_games (clock w)"
  have "files (save_to_csv ev free_games filename w) filename =
      Some (Csv_file fieldnames ?rows)"
    using h by (simp add: save_to_csv_def)
  moreover have "\<forall>i < length free_games.
      ?rows ! i =
        map (\<lambda>field. case map_of (free_games ! i) field of None \<Rightarrow> PyStr [] | Some v \<Rightarrow> v)
          [''title'', ''platform'', ''original_price'', ''current_price'', ''url'',
           ''end_date'', ''description'', ''type''] @
        [PyStr (now ev (clock w + i))]"
    by (simp add: nth_csv_rows csv_row_cells offer_get_def)
  ultimately show "\<exists>rows. files (save_to_csv ev free_games filename w) filename =
           Some (Csv_file [''title'', ''platform'', ''original_price'', ''current_price'',
                           ''url'', ''end_date'', ''description'', ''type'', ''scraped_at''] rows) \<and>
         length rows = length free_games \<and>
         (\<forall>i < length free_games.
            rows ! i =
              map (\<lambda>field. case map_of (free_games ! i) field of
                              None \<Rightarrow> PyStr [] | Some v \<Rightarrow> v)
                [''title'', ''platform'', ''original_price'', ''current_price'', ''url'',
                 ''end_date'', ''description'', ''type''] @
              [PyStr (now ev (clock w + i))])"
    by (intro exI[of _ ?rows]) (simp add: fieldnames_def)
next
  show "save_to_csv ev [] filename w = w" by (simp add: save_to_csv_def)
qed

theorem csv_sink_witness:
  "files (save_to_csv example_env
            [epic_offer ''Paid Game'' ''$29.99'',
             [(''title'', PyStr ''Game B''), (''discount_percent'', PyInt 100)]]
            ''free_games.csv'' empty_world) ''free_games.csv'' =
     Some (Csv_file [''title'', ''platform'', ''original_price'', ''current_price'',
                     ''url'', ''end_date'', ''description'', ''type'', ''scraped_at'']
            [[PyStr ''Paid Game'', PyStr ''Epic Games Store'', PyStr ''$29.99'', PyStr ''Free'',
              PyStr ''https://store.epicgames.com'', PyStr ''2030-01-08T16:00:00.000Z'',
              PyStr [], PyStr ''Current Free Game'', PyStr ''2030-01-01T12:00:00''],
             [PyStr ''Game B'', PyStr [], PyStr [], PyStr [], PyStr [], PyStr [], PyStr [],
              PyStr [], PyStr ''2030-01-01T12:00:01'']]) \<and>
   (\<exists>rows. files (save_to_csv example_env
            [epic_offer ''Paid Game'' ''$29.99'',
             [(''title'', PyStr ''Game B''), (''discount_percent'', PyInt 100)]]
            ''free_games.csv'' empty_world) ''free_games.csv'' =
       Some (Csv_file [''title'', ''platform'', ''original_price'', ''current_price'',
                     ''url'', ''end_date'', ''description'', ''type'', ''scraped_at''] rows) \<and>
      length rows = 2 \<and>
      rows ! 1 = [PyStr ''Game B'', PyStr [], PyStr [], PyStr [], PyStr [], PyStr [], PyStr [],
                  PyStr [], PyStr ''2030-01-01T12:00:01''])"
proof -
  let ?games = "[epic_offer ''Paid Game'' ''$29.99'',
             [(''title'', PyStr ''Game B''), (''discount_percent'', PyInt 100)]]"
  have ev: "files (save_to_csv example_env ?games ''free_games.csv'' empty_world) ''free_games.csv'' =
     Some (Csv_file [''title'', ''platform'', ''original_price'', ''current_price'',
                     ''url'', ''end_date'', ''description'', ''type'', ''scraped_at'']
            [[PyStr ''Paid Game'', PyStr ''Epic Games Store'', PyStr ''$29.99'', PyStr ''Free'',
              PyStr ''https://store.epicgames.com'', PyStr ''2030-01-08T16:00:00.000Z'',
              PyStr [], PyStr ''Current Free Game'', PyStr ''2030-01-01T12:00:00''],
             [PyStr ''Game B'', PyStr [], PyStr [], PyStr [], PyStr [], PyStr [], PyStr [],
              PyStr [], PyStr ''2030-01-01T12:00:01'']])"
    by code_simp
  have h: "?games \<noteq> [] \<and> can_open example_env ''free_games.csv''"
    by (simp add: example_env_def)
  have n: "now example_env (clock empty_world + 1) = ''2030-01-01T12:00:01''"
    by code_simp
  from csv_sink[of ?games example_env "''free_games.csv''" empty_world, THEN conjunct1] h
  obtain rows where
    r: "files (save_to_csv example_env ?games ''free_games.csv'' empty_world) ''free_games.csv'' =
         Some (Csv_file [''title'', ''platform'', ''original_price'', ''current_price'',
                     ''url'', ''end_date'', ''description'', ''type'', ''scraped_at''] rows)"
       "length rows = length ?games"
       "\<forall>i < length ?games.
            rows ! i =
              map (\<lambda>field. case map_of (?games ! i) field of None \<Rightarrow> PyStr [] | Some v \<Rightarrow> v)
                [''title'', ''platform'', ''original_price'', ''current_price'', ''url'',
                 ''end_date'', ''description'', ''type''] @
              [PyStr (now example_env (clock empty_world + i))]"
    by blast
  from r(3)[rule_format, of 1] n
  have "rows ! 1 = [PyStr ''Game B'', PyStr [], PyStr [], PyStr [], PyStr [], PyStr [], PyStr [],
                  PyStr [], PyStr ''2030-01-01T12:00:01'']"
    by simp
  with r(1,2) ev show ?thesis by auto
qed

text \<open>
  The counterexample to claim C9 as stated: with no offers the sink returns before
  it opens the file, so there is no header row either.
\<close>

theorem csv_sink_writes_nothing_for_no_offers:
  "files (save_to_csv example_env [] ''free_games.csv'' empty_world) ''free_games.csv'' = None"
  by code_simp

text \<open>
  Claim C8, as amended. When the pipeline returns its offers (with platforms that
  can be grouped) and both files can be opened, the entry point writes
  \<^verbatim>\<open>free_games.json\<close>, also for zero offers, and writes \<^verbatim>\<open>free_games.csv\<close> when there
  is at least one offer. With zero offers the CSV file is left as it was, the run
  prints that no games were found and that it completed, and no error is logged:
  zero offers is not an error.
\<close>

theorem main_writes_files:
  assumes "scrape_all_platforms_threaded cs = Inr games"
    and "\<forall>g \<in> set games. hashable (platform_of g)"
    and "can_open ev ''free_games.json''" and "can_open ev ''free_games.csv''"
  shows "files (main ev cs w) ''free_games.json'' =
           Some (Json_file (json_document ev games (clock w))) \<and>
         (games \<noteq> [] \<longrightarrow>
            files (main ev cs w) ''free_games.csv'' =
              Some (Csv_file fieldnames (csv_rows ev games (Suc (clock w))))) \<and>
         (games = [] \<longrightarrow>
            files (main ev cs w) ''free_games.csv'' = files w ''free_games.csv'' \<and>
            printed (main ev cs w) =
              printed w @ [Starting, No_free_games_found, Completed 0, None_currently_free] \<and>
            errors (main ev cs w) = errors w)"
proof -
  have t: "\<forall>g \<in> set games. map_of g ''title'' \<noteq> None"
    using scraped_offers_have_titles[OF assms(1)] by blast
  from print_summary_defined[OF assms(2) t] obtain summary where
    s: "print_summary games = Inr summary" "games = [] \<longrightarrow> summary = [No_free_games_found]"
    by blast
  have h: "\<not> (\<exists>game \<in> set games. \<not> hashable (platform_of game))"
    using assms(2) by blast
  have m: "main ev cs w =
      say [Completed (length games),
           if games \<noteq> [] then All_currently_free (length games) else None_currently_free]
        (save_to_csv ev games ''free_games.csv''
          (save_to_json ev games ''free_games.json'' (say summary (say [Starting] w))))"
    by (simp add: main_def Let_def assms(1) s(1))
  show ?thesis
    unfolding m using assms(3,4) h s(2)
    by (auto simp: say_def save_to_csv_def save_to_json_def)
qed

theorem main_writes_files_witness:
  "files (main example_env
            [(''scrape_epic_games'', Inr [epic_offer ''Paid Game'' ''$29.99'']),
             (''scrape_steam_weekend_deals'', Inl RequestException)] empty_world)
      ''free_games.json'' =
     Some (Json_file (json_document example_env [epic_offer ''Paid Game'' ''$29.99'']
                        (clock empty_world))) \<and>
   files (main example_env
            [(''scrape_epic_games'', Inr [epic_offer ''Paid Game'' ''$29.99'']),
             (''scrape_steam_weekend_deals'', Inl RequestException)] empty_world)
      ''free_games.csv'' =
     Some (Csv_file fieldnames
             (csv_rows example_env [epic_offer ''Paid Game'' ''$29.99'']
                (Suc (clock empty_world))))"
proof -
  let ?cs = "[(''scrape_epic_games'', Inr [epic_offer ''Paid Game'' ''$29.99'']),
             (''scrape_steam_weekend_deals'', Inl RequestException)]"
  have a: "scrape_all_platforms_threaded ?cs = Inr [epic_offer ''Paid Game'' ''$29.99'']"
    by code_simp
  have b: "\<forall>g \<in> set [epic_offer ''Paid Game'' ''$29.99'']. hashable (platform_of g)"
    by (simp add: platform_of_def offer_get_def epic_offer_def)
  have c: "can_open example_env ''free_games.json''" "can_open example_env ''free_games.csv''"
    by (simp_all add: example_env_def)
  from main_writes_files[OF a b c, of empty_world] show ?thesis by simp
qed

text \<open>
  The counterexample to claim C8 as stated: all seven scrapers complete with no
  offer; the JSON file is written and the CSV file is not.
\<close>

theorem main_writes_no_csv_for_no_offers:
  "files (main example_env all_empty empty_world) ''free_games.csv'' = None \<and>
   files (main example_env all_empty empty_world) ''free_games.json'' =
     Some (Json_file (PyDict [(''scraped_at'', PyStr ''2030-01-01T12:00:00''),
                              (''total_games'', PyInt 0),
                              (''platforms'', PyList []),
                              (''games'', PyList [])]))"
  by code_simp

end
